theory Spec2Isabelle
  imports Main
begin

section \<open>Python values, exceptions and their text\<close>

text \<open>
  The values the program stores in its state are the ones its annotations name:
  \<open>None\<close>, a \<open>str\<close>, and a \<open>Dict[str, str]\<close> (an association list in insertion
  order, looked up with \<open>map_of\<close>). Strings are ASCII, as the whole source is. Values
  are not shared: two values that are dictionaries are two objects.
\<close>

datatype pyval = PNone | PStr string | PDict "(string \<times> string) list"

text \<open>The exceptions the code can raise, each with the argument it was built from.\<close>

datatype exn =
  TypeError string | KeyError string | AttributeError string | NotImplementedError string

text \<open>Truthiness, as \<open>not x\<close> and \<open>x or y\<close> test it.\<close>

fun truthy :: "pyval \<Rightarrow> bool" where
  "truthy PNone = False"
| "truthy (PStr s) = (s \<noteq> [])"
| "truthy (PDict d) = (d \<noteq> [])"

definition nl :: string where
  "nl = [CHR 0x0A]"

definition apos :: string where
  "apos = [CHR 0x27]"

text \<open>
  \<open>repr\<close> of a \<open>str\<close>: double quotes when the text holds a single quote and no double
  quote, single quotes otherwise; the quote and the backslash are escaped, control
  characters are written \<open>\t\<close>, \<open>\n\<close>, \<open>\r\<close> or \<open>\xhh\<close>.
\<close>

definition hex_digit :: "nat \<Rightarrow> char" where
  "hex_digit n = ''0123456789abcdef'' ! n"

definition repr_char :: "char \<Rightarrow> char \<Rightarrow> string" where
  "repr_char q c =
     (if c = q \<or> c = CHR 0x5C then [CHR 0x5C, c]
      else if c = CHR 0x09 then [CHR 0x5C, CHR ''t'']
      else if c = CHR 0x0A then [CHR 0x5C, CHR ''n'']
      else if c = CHR 0x0D then [CHR 0x5C, CHR ''r'']
      else if (of_char c :: nat) < 32 \<or> (of_char c :: nat) = 127
        then [CHR 0x5C, CHR ''x'', hex_digit ((of_char c :: nat) div 16),
              hex_digit ((of_char c :: nat) mod 16)]
      else [c])"

definition py_repr_str :: "string \<Rightarrow> string" where
  "py_repr_str s =
     (let q = (if CHR 0x27 \<in> set s \<and> CHR 0x22 \<notin> set s then CHR 0x22 else CHR 0x27)
      in q # concat (map (repr_char q) s) @ [q])"

fun join :: "string \<Rightarrow> string list \<Rightarrow> string" where
  "join sep [] = []"
| "join sep [x] = x"
| "join sep (x # y # ys) = x @ sep @ join sep (y # ys)"

fun py_repr :: "pyval \<Rightarrow> string" where
  "py_repr PNone = ''None''"
| "py_repr (PStr s) = py_repr_str s"
| "py_repr (PDict d) =
     ''{'' @ join '', '' (map (\<lambda>(k, v). py_repr_str k @ '': '' @ py_repr_str v) d) @ ''}''"

text \<open>\<open>str(v)\<close>, which is what an f-string field \<open>{v}\<close> and \<open>print(v)\<close> render.\<close>

fun py_str :: "pyval \<Rightarrow> string" where
  "py_str (PStr s) = s"
| "py_str v = py_repr v"

text \<open>\<open>repr\<close> of a dictionary from \<open>str\<close> to values, its items in insertion order.\<close>

definition py_repr_items :: "(string \<times> pyval) list \<Rightarrow> string" where
  "py_repr_items items =
     ''{'' @ join '', '' (map (\<lambda>(k, v). py_repr_str k @ '': '' @ py_repr v) items) @ ''}''"

text \<open>\<open>str(e)\<close> of an exception: its message, and for a \<open>KeyError\<close> the \<open>repr\<close> of the key.\<close>

fun exn_str :: "exn \<Rightarrow> string" where
  "exn_str (TypeError m) = m"
| "exn_str (KeyError k) = py_repr_str k"
| "exn_str (AttributeError m) = m"
| "exn_str (NotImplementedError m) = m"

fun type_name :: "pyval \<Rightarrow> string" where
  "type_name PNone = ''NoneType''"
| "type_name (PStr s) = ''str''"
| "type_name (PDict d) = ''dict''"

text \<open>
  \<open>v[key]\<close> with a \<open>str\<close> key: a dictionary gives the entry or raises \<open>KeyError\<close>;
  \<open>None\<close> and a \<open>str\<close> raise \<open>TypeError\<close> (the message for a \<open>str\<close> is that of
  CPython 3.11 and later).
\<close>

fun subscript :: "pyval \<Rightarrow> string \<Rightarrow> exn + pyval" where
  "subscript (PDict d) key =
     (case map_of d key of Some v \<Rightarrow> Inr (PStr v) | None \<Rightarrow> Inl (KeyError key))"
| "subscript PNone key =
     Inl (TypeError (apos @ ''NoneType'' @ apos @ '' object is not subscriptable''))"
| "subscript (PStr s) key =
     Inl (TypeError (''string indices must be integers, not '' @ apos @ ''str'' @ apos))"

section \<open>Logging\<close>

text \<open>
  A log record is the logger's name, the level and the message; the timestamp that
  \<open>basicConfig\<close>'s format adds is not part of the model. The level is \<open>INFO\<close>, so every
  record the code emits is kept.
\<close>

datatype level = INFO | WARNING | ERROR | CRITICAL

type_synonym log_record = "string \<times> level \<times> string"

section \<open>Shared state: \<open>CareerState\<close>\<close>

text \<open>
  A \<open>CareerState\<close> object is its instance dictionary: the attributes stored on the
  object, in insertion order. \<open>__init__\<close> stores the eight fields. Storing under a key
  the dictionary has replaces the value in place, storing under a new key appends.
\<close>

type_synonym CareerState = "(string \<times> pyval) list"

fun dict_set :: "string \<Rightarrow> pyval \<Rightarrow> (string \<times> pyval) list \<Rightarrow> (string \<times> pyval) list" where
  "dict_set key v [] = [(key, v)]"
| "dict_set key v ((k, x) # items) =
     (if k = key then (key, v) # items else (k, x) # dict_set key v items)"

definition field_names :: "string list" where
  "field_names =
     [''interest_area'', ''suggested_streams'', ''user_location'', ''target_stream'',
      ''college_results'', ''criteria_details'', ''reviewer_notes'', ''final_summary'']"

definition CareerState_init :: CareerState where
  "CareerState_init = map (\<lambda>key. (key, PNone)) field_names"

text \<open>
  The names found on the class rather than on the instance: the two methods and the
  docstring of the class body, and what every class has or inherits from \<open>object\<close>
  (the list is that of CPython 3.11 and 3.12).
\<close>

definition class_names :: "string list" where
  "class_names =
     [''__init__'', ''update_state'', ''__doc__'', ''__module__'', ''__dict__'', ''__weakref__'',
      ''__class__'', ''__delattr__'', ''__dir__'', ''__eq__'', ''__format__'', ''__ge__'',
      ''__getattribute__'', ''__getstate__'', ''__gt__'', ''__hash__'', ''__init_subclass__'',
      ''__le__'', ''__lt__'', ''__ne__'', ''__new__'', ''__reduce__'', ''__reduce_ex__'',
      ''__repr__'', ''__setattr__'', ''__sizeof__'', ''__str__'', ''__subclasshook__'']"

definition hasattr :: "CareerState \<Rightarrow> string \<Rightarrow> bool" where
  "hasattr s key = (map_of s key \<noteq> None \<or> key \<in> set class_names)"

text \<open>
  \<open>setattr(self, key, value)\<close>. Three names of the class are descriptors with a setter
  of their own: \<open>__class__\<close> accepts only a class, which no value of the model is;
  \<open>__dict__\<close> accepts only a dictionary, which then is the instance dictionary, so
  that the attributes stored before are gone; \<open>__weakref__\<close> cannot be written. Every
  other name is stored in the instance dictionary.
\<close>

definition setattr :: "CareerState \<Rightarrow> string \<Rightarrow> pyval \<Rightarrow> exn + CareerState" where
  "setattr s key v =
     (if key = ''__class__'' then
        Inl (TypeError (''__class__ must be set to a class, not '' @ apos @ type_name v @ apos
                        @ '' object''))
      else if key = ''__dict__'' then
        (case v of
           PDict d \<Rightarrow> Inr (map (\<lambda>(k, x). (k, PStr x)) d)
         | _ \<Rightarrow> Inl (TypeError (''__dict__ must be set to a dictionary, not a '' @ apos
                               @ type_name v @ apos)))
      else if key = ''__weakref__'' then
        Inl (AttributeError (''attribute '' @ apos @ ''__weakref__'' @ apos @ '' of '' @ apos
                             @ ''CareerState'' @ apos @ '' objects is not writable''))
      else Inr (dict_set key v s))"

text \<open>
  Reading a field, \<open>self.state.key\<close>, for a key that is no name of the class: the
  value in the instance dictionary, or \<open>AttributeError\<close>.
\<close>

definition getattr :: "CareerState \<Rightarrow> string \<Rightarrow> exn + pyval" where
  "getattr s key =
     (case map_of s key of
        Some v \<Rightarrow> Inr v
      | None \<Rightarrow>
          Inl (AttributeError (apos @ ''CareerState'' @ apos @ '' object has no attribute ''
                               @ apos @ key @ apos)))"

text \<open>Sequencing of two steps of which the first may raise.\<close>

definition bind :: "exn + 'a \<Rightarrow> ('a \<Rightarrow> exn + 'b) \<Rightarrow> exn + 'b" where
  "bind m f = (case m of Inl e \<Rightarrow> Inl e | Inr x \<Rightarrow> f x)"

text \<open>
  What the running program holds: the one \<open>CareerState\<close> object all agents share, and
  the records logged so far.
\<close>

record world =
  state :: CareerState
  log_records :: "log_record list"

definition emit :: "string \<Rightarrow> level \<Rightarrow> string \<Rightarrow> world \<Rightarrow> world" where
  "emit logger_name lvl msg w = w\<lparr>log_records := log_records w @ [(logger_name, lvl, msg)]\<rparr>"

text \<open>The module's logger, \<open>logging.getLogger('CareerBuilderHelper')\<close>.\<close>

definition logger :: string where
  "logger = ''CareerBuilderHelper''"

text \<open>
  One turn of the loop \<open>for key, value in kwargs.items()\<close>. A \<open>setattr\<close> that raises
  ends the call of \<open>update_state\<close> there; what was stored before stays. (The keyword
  dictionary never holds the key \<open>self\<close>: Python refuses such a call before the body
  runs.)
\<close>

definition update_entry :: "world \<Rightarrow> string \<times> pyval \<Rightarrow> (exn + unit) \<times> world" where
  "update_entry w kv =
     (case kv of (key, val) \<Rightarrow>
        if hasattr (state w) key then
          (case setattr (state w) key val of
             Inl e \<Rightarrow> (Inl e, w)
           | Inr s \<Rightarrow> (Inr (), w\<lparr>state := s\<rparr>))
        else (Inr (), emit logger WARNING (''Attempted to set unknown state key: '' @ key) w))"

fun update_entries :: "world \<Rightarrow> (string \<times> pyval) list \<Rightarrow> (exn + unit) \<times> world" where
  "update_entries w [] = (Inr (), w)"
| "update_entries w (kv # kwargs) =
     (case update_entry w kv of
        (Inl e, w') \<Rightarrow> (Inl e, w')
      | (Inr u, w') \<Rightarrow> update_entries w' kwargs)"

text \<open>
  \<open>repr(kwargs)\<close> at the end of \<open>update_state\<close>. A dictionary passed under \<open>__dict__\<close> has
  become the instance dictionary, so it shows the attributes stored since.
\<close>

definition py_repr_kwargs :: "(string \<times> pyval) list \<Rightarrow> CareerState \<Rightarrow> string" where
  "py_repr_kwargs kwargs s =
     ''{'' @ join '', ''
        (map (\<lambda>(k, v). py_repr_str k @ '': '' @
                (if k = ''__dict__'' then py_repr_items s else py_repr v)) kwargs) @ ''}''"

definition update_state :: "world \<Rightarrow> (string \<times> pyval) list \<Rightarrow> (exn + unit) \<times> world" where
  "update_state w kwargs =
     (case update_entries w kwargs of
        (Inl e, w') \<Rightarrow> (Inl e, w')
      | (Inr u, w') \<Rightarrow>
          (Inr (), emit logger INFO (''State updated: '' @ py_repr_kwargs kwargs (state w')) w'))"

text \<open>
  The call \<open>self.state.update_state(...)\<close>: the attribute is looked up on the instance
  first, so a value stored there under the method's name is what gets called, and
  calling a value that is no function raises \<open>TypeError\<close>.
\<close>

definition call_update_state :: "world \<Rightarrow> (string \<times> pyval) list \<Rightarrow> (exn + unit) \<times> world" where
  "call_update_state w kwargs =
     (case map_of (state w) ''update_state'' of
        None \<Rightarrow> update_state w kwargs
      | Some v \<Rightarrow> (Inl (TypeError (apos @ type_name v @ apos @ '' object is not callable'')), w))"

section \<open>Agents\<close>

text \<open>
  An agent is its name, the tools it was given and its \<open>execute\<close> method. The method
  works on the shared state, so it takes the world and gives the world back, with
  either the string it returns (\<open>Inr\<close>) or the exception it raises (\<open>Inl\<close>); what was
  logged or written before a raise stays.
\<close>

type_synonym outcome = "(exn + string) \<times> world"

record agent =
  name :: string
  tools :: "(string \<times> string) list"
  execute :: "world \<Rightarrow> outcome"

text \<open>\<open>self.logger = logging.getLogger(f'ADK.{name}')\<close>\<close>

definition agent_logger :: "string \<Rightarrow> string" where
  "agent_logger nm = ''ADK.'' @ nm"

definition MockAgent_execute :: "string \<Rightarrow> world \<Rightarrow> outcome" where
  "MockAgent_execute nm w =
     (Inl (NotImplementedError ''Subclasses must implement the execute method.''), w)"

definition mock_interest :: string where
  "mock_interest = ''Biotechnology and sustainable energy''"

definition InterestAgent_execute :: "string \<Rightarrow> world \<Rightarrow> outcome" where
  "InterestAgent_execute nm w =
     (case call_update_state w [(''interest_area'', PStr mock_interest)] of
        (Inl e, w1) \<Rightarrow> (Inl e, w1)
      | (Inr u, w1) \<Rightarrow>
          (Inr ''NEXT_STATE'',
           emit (agent_logger nm) INFO (''Captured user interest: '' @ mock_interest) w1))"

definition mock_streams :: string where
  "mock_streams =
     ''1. Applied Biological Sciences (Focus on Bio-engineering), '' @
     ''2. Environmental Science and Policy, '' @
     ''3. Chemical Engineering with a focus on Renewable Fuels.''"

definition StreamResearchAgent_execute :: "string \<Rightarrow> world \<Rightarrow> outcome" where
  "StreamResearchAgent_execute nm w =
     (case getattr (state w) ''interest_area'' of
        Inl e \<Rightarrow> (Inl e, w)
      | Inr interest \<Rightarrow>
          if \<not> truthy interest then
            (Inr ''ERROR_STATE'',
             emit (agent_logger nm) ERROR ''Interest area missing. Cannot research streams.'' w)
          else
            (case call_update_state w [(''suggested_streams'', PStr mock_streams)] of
               (Inl e, w1) \<Rightarrow> (Inl e, w1)
             | (Inr u, w1) \<Rightarrow>
                 (Inr ''AWAIT_SELECTION'',
                  emit (agent_logger nm) INFO (''Suggested streams: '' @ mock_streams) w1)))"

definition mock_location :: "(string \<times> string) list" where
  "mock_location = [(''state'', ''California''), (''city'', ''Berkeley'')]"

definition mock_selection :: string where
  "mock_selection = ''Applied Biological Sciences (Focus on Bio-engineering)''"

text \<open>The message of the first log call reads \<open>suggested_streams\<close> before anything is logged.\<close>

definition LocationAgent_execute :: "string \<Rightarrow> world \<Rightarrow> outcome" where
  "LocationAgent_execute nm w =
     (case getattr (state w) ''suggested_streams'' of
        Inl e \<Rightarrow> (Inl e, w)
      | Inr streams \<Rightarrow>
          (case call_update_state
                  (emit (agent_logger nm) INFO (''Suggested Streams: '' @ py_str streams) w)
                  [(''user_location'', PDict mock_location),
                   (''target_stream'', PStr mock_selection)] of
             (Inl e, w2) \<Rightarrow> (Inl e, w2)
           | (Inr u, w2) \<Rightarrow>
               (Inr ''NEXT_STATE'',
                emit (agent_logger nm) INFO
                  (''User selected: '' @ mock_selection @ '' in '' @ ''Berkeley'' @ '', ''
                   @ ''California'')
                  w2)))"

definition mock_colleges :: string where
  "mock_colleges =
     ''1. University of California, Berkeley (Bioengineering), '' @
     ''2. Stanford University (Sustainable Science and Tech), '' @
     ''3. UC Davis (Applied Biology).''"

text \<open>
  What \<open>CollegeResearchAgent.execute\<close> reads before it writes: the two fields, the
  check, and \<open>location['city']\<close> and \<open>location['state']\<close> for a search query that is
  built and never used. \<open>Inr False\<close> says the check found a field missing.
\<close>

definition college_inputs :: "CareerState \<Rightarrow> exn + bool" where
  "college_inputs s =
     bind (getattr s ''target_stream'') (\<lambda>stream.
     bind (getattr s ''user_location'') (\<lambda>location.
       if \<not> truthy stream \<or> \<not> truthy location then Inr False
       else
         bind (subscript location ''city'') (\<lambda>city.
         bind (subscript location ''state'') (\<lambda>st. Inr True))))"

definition CollegeResearchAgent_execute :: "string \<Rightarrow> world \<Rightarrow> outcome" where
  "CollegeResearchAgent_execute nm w =
     (case college_inputs (state w) of
        Inl e \<Rightarrow> (Inl e, w)
      | Inr False \<Rightarrow>
          (Inr ''ERROR_STATE'',
           emit (agent_logger nm) ERROR ''Stream or Location missing. Cannot research colleges.'' w)
      | Inr True \<Rightarrow>
          (case call_update_state w [(''college_results'', PStr mock_colleges)] of
             (Inl e, w1) \<Rightarrow> (Inl e, w1)
           | (Inr u, w1) \<Rightarrow>
               (Inr ''NEXT_STATE'',
                emit (agent_logger nm) INFO (''Found colleges: '' @ mock_colleges) w1)))"

definition mock_criteria :: string where
  "mock_criteria =
     ''UC Berkeley: GPA 4.0+, SAT/ACT Optional, essays focused on innovation. '' @
     ''Stanford: Extremely selective, requires two recommendation letters, unique project portfolio. '' @
     ''UC Davis: Minimum GPA 3.5, emphasis on high school science courses.''"

text \<open>
  The two fields \<open>CriteriaAgent.execute\<close> reads, and its check; \<open>Inr False\<close> says the
  check found a field missing.
\<close>

definition criteria_inputs :: "CareerState \<Rightarrow> exn + bool" where
  "criteria_inputs s =
     bind (getattr s ''college_results'') (\<lambda>colleges.
     bind (getattr s ''target_stream'') (\<lambda>stream.
       if \<not> truthy colleges \<or> \<not> truthy stream then Inr False else Inr True))"

definition CriteriaAgent_execute :: "string \<Rightarrow> world \<Rightarrow> outcome" where
  "CriteriaAgent_execute nm w =
     (case criteria_inputs (state w) of
        Inl e \<Rightarrow> (Inl e, w)
      | Inr False \<Rightarrow>
          (Inr ''ERROR_STATE'',
           emit (agent_logger nm) ERROR ''College results missing. Cannot find criteria.'' w)
      | Inr True \<Rightarrow>
          (case call_update_state w [(''criteria_details'', PStr mock_criteria)] of
             (Inl e, w1) \<Rightarrow> (Inl e, w1)
           | (Inr u, w1) \<Rightarrow>
               (Inr ''NEXT_STATE'',
                emit (agent_logger nm) INFO ''Admission criteria details gathered.'' w1)))"

definition mock_review_notes :: string where
  "mock_review_notes =
     ''All data appears consistent. The suggested streams align with '' @ apos @
     ''Biotechnology and sustainable energy'' @ apos @ ''. '' @
     ''College names are accurately matched to the location and target stream. '' @
     ''The criteria are specific and look accurate based on general knowledge of these institutions.''"

text \<open>
  \<open>data_to_review\<close> collects five fields, read in this order, and is not used
  afterwards.
\<close>

definition data_to_review :: "CareerState \<Rightarrow> exn + (string \<times> pyval) list" where
  "data_to_review s =
     bind (getattr s ''interest_area'') (\<lambda>interest.
     bind (getattr s ''suggested_streams'') (\<lambda>streams.
     bind (getattr s ''user_location'') (\<lambda>location.
     bind (getattr s ''college_results'') (\<lambda>colleges.
     bind (getattr s ''criteria_details'') (\<lambda>criteria.
       Inr [(''interest'', interest), (''streams'', streams), (''location'', location),
            (''colleges'', colleges), (''criteria'', criteria)])))))"

definition ReviewerAgent_execute :: "string \<Rightarrow> world \<Rightarrow> outcome" where
  "ReviewerAgent_execute nm w =
     (case data_to_review (state w) of
        Inl e \<Rightarrow> (Inl e, w)
      | Inr d \<Rightarrow>
          (case call_update_state w [(''reviewer_notes'', PStr mock_review_notes)] of
             (Inl e, w1) \<Rightarrow> (Inl e, w1)
           | (Inr u, w1) \<Rightarrow>
               (Inr ''NEXT_STATE'',
                emit (agent_logger nm) INFO ''Reviewer Agent completed analysis.'' w1)))"

text \<open>
  The text of the f-string of \<open>SummaryAgent.execute\<close> for the values of its fields.
  Every line of the literal carries the eight blanks of the source's indentation.
\<close>

definition ind :: string where
  "ind = ''        ''"

definition summary_text ::
  "pyval \<Rightarrow> pyval \<Rightarrow> pyval \<Rightarrow> pyval \<Rightarrow> pyval \<Rightarrow> pyval \<Rightarrow> pyval \<Rightarrow> pyval \<Rightarrow> string" where
  "summary_text interest stream streams city st colleges criteria notes =
     nl @ ind @ ''--- Career Builder Helper Summary ---'' @ nl @
     nl @ ind @ ''**User Interest:** '' @ py_str interest @ nl @
     nl @ ind @ ''**Selected Stream:** '' @ py_str stream @
       '' (from the initial suggestions: '' @ py_str streams @ '')'' @ nl @
     nl @ ind @ ''**Target Location:** '' @ py_str city @ '', '' @ py_str st @ nl @
     nl @ ind @ ''**Top 3 College Options for '' @ py_str stream @ '':**'' @ nl @
     ind @ py_str colleges @ nl @
     nl @ ind @ ''**Admission Criteria & Process Overview:**'' @ nl @
     ind @ py_str criteria @ nl @
     nl @ ind @ ''**Reviewer Note (Validation):**'' @ nl @
     ind @ py_str notes @ nl @
     nl @ ind @ ''This detailed plan provides a robust starting point for your education journey.'' @ nl @
     ind"

text \<open>
  The f-string evaluates its fields from left to right, so the first attribute that
  is missing, or the first failing read of \<open>user_location\<close>, is the exception raised.
  \<open>target_stream\<close> is read twice; nothing changes it in between.
\<close>

definition compose_summary :: "CareerState \<Rightarrow> exn + string" where
  "compose_summary s =
     bind (getattr s ''interest_area'') (\<lambda>interest.
     bind (getattr s ''target_stream'') (\<lambda>stream.
     bind (getattr s ''suggested_streams'') (\<lambda>streams.
     bind (getattr s ''user_location'') (\<lambda>location.
     bind (subscript location ''city'') (\<lambda>city.
     bind (getattr s ''user_location'') (\<lambda>location2.
     bind (subscript location2 ''state'') (\<lambda>st.
     bind (getattr s ''target_stream'') (\<lambda>stream2.
     bind (getattr s ''college_results'') (\<lambda>colleges.
     bind (getattr s ''criteria_details'') (\<lambda>criteria.
     bind (getattr s ''reviewer_notes'') (\<lambda>notes.
       Inr (summary_text interest stream streams city st colleges criteria notes))))))))))))"

definition SummaryAgent_execute :: "string \<Rightarrow> world \<Rightarrow> outcome" where
  "SummaryAgent_execute nm w =
     (case compose_summary (state w) of
        Inl e \<Rightarrow> (Inl e, w)
      | Inr text \<Rightarrow>
          (case call_update_state w [(''final_summary'', PStr text)] of
             (Inl e, w1) \<Rightarrow> (Inl e, w1)
           | (Inr u, w1) \<Rightarrow>
               (Inr ''FLOW_COMPLETE'',
                emit (agent_logger nm) INFO ''Final summary generated.'' w1)))"

text \<open>The classes of the source, and the construction \<open>Class(name, adk_state, env)\<close>.\<close>

datatype agent_class =
  MockAgent | InterestAgent | StreamResearchAgent | LocationAgent | CollegeResearchAgent
  | CriteriaAgent | ReviewerAgent | SummaryAgent

fun method_of :: "agent_class \<Rightarrow> string \<Rightarrow> world \<Rightarrow> outcome" where
  "method_of MockAgent = MockAgent_execute"
| "method_of InterestAgent = InterestAgent_execute"
| "method_of StreamResearchAgent = StreamResearchAgent_execute"
| "method_of LocationAgent = LocationAgent_execute"
| "method_of CollegeResearchAgent = CollegeResearchAgent_execute"
| "method_of CriteriaAgent = CriteriaAgent_execute"
| "method_of ReviewerAgent = ReviewerAgent_execute"
| "method_of SummaryAgent = SummaryAgent_execute"

definition new_agent :: "agent_class \<Rightarrow> string \<Rightarrow> (string \<times> string) list \<Rightarrow> agent" where
  "new_agent cls nm env = \<lparr>name = nm, tools = env, execute = method_of cls nm\<rparr>"

section \<open>The flow\<close>

text \<open>
  The retry options \<open>setup_adk_environment\<close> builds with the keyword arguments of the
  source. The value stays in a local variable: the environment the function returns
  holds four names, none of them bound to it.
\<close>

record HttpRetryOptions =
  attempts :: int
  exp_base :: int
  initial_delay :: int
  http_status_codes :: "int list"

definition http_retry_options :: HttpRetryOptions where
  "http_retry_options =
     \<lparr>attempts = 5, exp_base = 7, initial_delay = 1, http_status_codes = [429, 500, 503, 504]\<rparr>"

definition setup_adk_environment :: "log_record list \<Rightarrow> (string \<times> string) list \<times> log_record list" where
  "setup_adk_environment lg =
     ([(''logger'', logger), (''search_tool'', ''GoogleSearchTool_Instance''),
       (''retry_config'', ''HttpRetryOptions_Config''), (''adk_plugins'', ''LoggingPlugin_Instance'')],
      lg @ [(logger, INFO, ''Initializing ADK environment and plugins...'')])"

text \<open>
  How the \<open>while\<close> loop was left: by the \<open>break\<close> after \<open>FLOW_COMPLETE\<close>, by the \<open>break\<close>
  after \<open>ERROR_STATE\<close>, by the \<open>break\<close> of the \<open>except\<close> clause, or because the index
  reached the end of the sequence.
\<close>

datatype halt = Flow_complete | Error_state | Unhandled exn | Sequence_end

text \<open>
  One turn of the loop at index \<open>current_agent_index\<close>: the agent is announced and
  executed inside \<open>try\<close>, and the turn ends either in a \<open>break\<close> or with the index
  for the next turn. A result that is none of the four strings matches no branch and
  leaves the index as it is.
\<close>

datatype turn = Break halt world | Next nat world

definition announce :: "agent \<Rightarrow> world \<Rightarrow> world" where
  "announce agent w = emit logger INFO (nl @ ''--- Executing Agent: '' @ name agent @ '' ---'') w"

definition loop_body :: "agent list \<Rightarrow> nat \<Rightarrow> world \<Rightarrow> turn" where
  "loop_body agent_sequence current_agent_index w =
     (let agent = agent_sequence ! current_agent_index;
          w1 = announce agent w
      in case execute agent w1 of
           (Inr result, w2) \<Rightarrow>
             if result = ''FLOW_COMPLETE'' then
               Break Flow_complete (emit logger INFO ''Flow successfully completed.'' w2)
             else if result = ''ERROR_STATE'' then
               Break Error_state
                 (emit logger ERROR (''Flow stopped due to error in '' @ name agent @ ''.'') w2)
             else if result = ''NEXT_STATE'' \<or> result = ''AWAIT_SELECTION'' then
               Next (current_agent_index + 1) w2
             else Next current_agent_index w2
         | (Inl e, w2) \<Rightarrow>
             Break (Unhandled e)
               (emit logger CRITICAL
                  (''Unhandled exception in '' @ name agent @ '': '' @ exn_str e) w2))"

text \<open>
  The loop. Since a turn may leave the index unchanged, the loop need not end: \<open>fuel\<close>
  bounds the number of turns, and \<open>None\<close> says the bound was reached with the index
  still inside the sequence. Besides the world, the loop returns the indices at which
  \<open>execute\<close> was called, in order.
\<close>

fun run_loop :: "nat \<Rightarrow> agent list \<Rightarrow> nat \<Rightarrow> nat list \<Rightarrow> world \<Rightarrow> (halt \<times> nat list \<times> world) option" where
  "run_loop 0 agent_sequence current_agent_index executed w =
     (if current_agent_index < length agent_sequence then None
      else Some (Sequence_end, executed, w))"
| "run_loop (Suc fuel) agent_sequence current_agent_index executed w =
     (if current_agent_index < length agent_sequence then
        (case loop_body agent_sequence current_agent_index w of
           Break h w' \<Rightarrow> Some (h, executed @ [current_agent_index], w')
         | Next i w' \<Rightarrow> run_loop fuel agent_sequence i (executed @ [current_agent_index]) w')
      else Some (Sequence_end, executed, w))"

text \<open>
  \<open>print(adk_state.final_summary or "\nFlow aborted. Check logs for details.")\<close>: the
  text written to standard output, or the \<open>AttributeError\<close> of reading the field, which
  no \<open>try\<close> encloses.
\<close>

definition abort_notice :: string where
  "abort_notice = nl @ ''Flow aborted. Check logs for details.''"

definition printed :: "CareerState \<Rightarrow> exn + string" where
  "printed s =
     bind (getattr s ''final_summary'') (\<lambda>summary.
       Inr ((if truthy summary then py_str summary else abort_notice) @ nl))"

text \<open>
  The body of \<open>run_career_builder_helper\<close> from the log line \<open>Starting ...\<close> on, for any
  agent sequence and the world the agents share: the loop, then the text printed.
\<close>

definition started :: "world \<Rightarrow> world" where
  "started w = emit logger INFO ''Starting Career Builder Helper Agentic Flow...'' w"

definition run_flow ::
  "nat \<Rightarrow> agent list \<Rightarrow> world \<Rightarrow> (halt \<times> nat list \<times> world \<times> (exn + string)) option" where
  "run_flow fuel agent_sequence w =
     (case run_loop fuel agent_sequence 0 [] (started w) of
        None \<Rightarrow> None
      | Some (h, executed, w') \<Rightarrow> Some (h, executed, w', printed (state w')))"

definition agent_sequence :: "(string \<times> string) list \<Rightarrow> agent list" where
  "agent_sequence env =
     [new_agent InterestAgent ''A1_InterestCapture'' env,
      new_agent StreamResearchAgent ''A2_StreamResearch'' env,
      new_agent LocationAgent ''A3_LocationCapture'' env,
      new_agent CollegeResearchAgent ''A4_CollegeSearch'' env,
      new_agent CriteriaAgent ''A5_CriteriaSearch'' env,
      new_agent ReviewerAgent ''A6_Reviewer'' env,
      new_agent SummaryAgent ''A7_Summary'' env]"

text \<open>
  The entry point, started with the records \<open>lg\<close> already in the log: it sets up the
  environment, creates a fresh state and runs the seven agents.
\<close>

definition run_career_builder_helper ::
  "nat \<Rightarrow> log_record list \<Rightarrow> (halt \<times> nat list \<times> world \<times> (exn + string)) option" where
  "run_career_builder_helper fuel lg =
     (case setup_adk_environment lg of
        (env, lg1) \<Rightarrow>
          run_flow fuel (agent_sequence env) \<lparr>state = CareerState_init, log_records = lg1\<rparr>)"

text \<open>A world as the entry point creates it: a fresh state and an empty log.\<close>

definition fresh_world :: world where
  "fresh_world = \<lparr>state = CareerState_init, log_records = []\<rparr>"

section \<open>Notions the properties are stated with\<close>

text \<open>The four strings the loop has a branch for.\<close>

definition control_signals :: "string list" where
  "control_signals = [''NEXT_STATE'', ''AWAIT_SELECTION'', ''ERROR_STATE'', ''FLOW_COMPLETE'']"

text \<open>An outcome that is a returned control signal, not a raised exception.\<close>

definition returns_signal :: "outcome \<Rightarrow> bool" where
  "returns_signal out = (case fst out of Inr r \<Rightarrow> r \<in> set control_signals | Inl e \<Rightarrow> False)"

text \<open>The state object still has each of its eight fields.\<close>

definition has_fields :: "CareerState \<Rightarrow> bool" where
  "has_fields s = list_all (\<lambda>key. map_of s key \<noteq> None) field_names"

text \<open>The method \<open>update_state\<close> is still the one of the class.\<close>

definition method_intact :: "world \<Rightarrow> bool" where
  "method_intact w = (map_of (state w) ''update_state'' = None)"

text \<open>
  The state object is as every call of \<open>update_state\<close> with field names leaves it: the
  eight fields are there and \<open>update_state\<close> is the method.
\<close>

definition intact :: "world \<Rightarrow> bool" where
  "intact w = (has_fields (state w) \<and> method_intact w)"

text \<open>A value that can be read at \<open>['city']\<close> and at \<open>['state']\<close>.\<close>

fun has_city_state :: "pyval \<Rightarrow> bool" where
  "has_city_state (PDict d) = (map_of d ''city'' \<noteq> None \<and> map_of d ''state'' \<noteq> None)"
| "has_city_state v = False"

text \<open>
  The world in which the agent at index \<open>k\<close> is announced when each agent before it
  has been executed once, in order, and the outcome of the agent at \<open>k\<close> there.
\<close>

fun world_at :: "agent list \<Rightarrow> world \<Rightarrow> nat \<Rightarrow> world" where
  "world_at agents w 0 = w"
| "world_at agents w (Suc k) =
     snd (execute (agents ! k) (announce (agents ! k) (world_at agents w k)))"

definition result_at :: "agent list \<Rightarrow> world \<Rightarrow> nat \<Rightarrow> exn + string" where
  "result_at agents w k = fst (execute (agents ! k) (announce (agents ! k) (world_at agents w k)))"

text \<open>The state is intact and its summary field still holds \<open>None\<close>.\<close>

definition unsummarised :: "world \<Rightarrow> bool" where
  "unsummarised w = (intact w \<and> map_of (state w) ''final_summary'' = Some PNone)"

text \<open>The agents built from a list of classes and names.\<close>

definition agents_of :: "(agent_class \<times> string) list \<Rightarrow> (string \<times> string) list \<Rightarrow> agent list" where
  "agents_of specs env = map (\<lambda>(cls, nm). new_agent cls nm env) specs"

text \<open>The state at the end of the seven agents' run, but for the summary.\<close>

definition researched_state :: CareerState where
  "researched_state =
     [(''interest_area'', PStr mock_interest), (''suggested_streams'', PStr mock_streams),
      (''user_location'', PDict mock_location), (''target_stream'', PStr mock_selection),
      (''college_results'', PStr mock_colleges), (''criteria_details'', PStr mock_criteria),
      (''reviewer_notes'', PStr mock_review_notes), (''final_summary'', PNone)]"

definition final_text :: string where
  "final_text =
     summary_text (PStr mock_interest) (PStr mock_selection) (PStr mock_streams)
       (PStr ''Berkeley'') (PStr ''California'') (PStr mock_colleges) (PStr mock_criteria)
       (PStr mock_review_notes)"

section \<open>Basic facts about the state and the agents\<close>

lemma state_emit [simp]: "state (emit l lv m w) = state w"
  by (simp add: emit_def)

lemma log_emit [simp]: "log_records (emit l lv m w) = log_records w @ [(l, lv, m)]"
  by (simp add: emit_def)

lemma map_of_dict_set:
  "map_of (dict_set key v s) k = (if k = key then Some v else map_of s k)"
  by (induction s) auto

lemma method_intact_emit [simp]: "method_intact (emit l lv m w) = method_intact w"
  by (simp add: method_intact_def)

lemma intact_emit [simp]: "intact (emit l lv m w) = intact w"
  by (simp add: intact_def)

lemma has_fields_dict_set: "has_fields s \<Longrightarrow> has_fields (dict_set key v s)"
  by (simp add: has_fields_def map_of_dict_set list_all_iff)

lemma has_fields_field:
  "has_fields s \<Longrightarrow> key \<in> set field_names \<Longrightarrow> \<exists>v. map_of s key = Some v"
  by (auto simp add: has_fields_def list_all_iff)

lemma getattr_Some: "map_of s key = Some v \<Longrightarrow> getattr s key = Inr v"
  by (simp add: getattr_def)

lemma getattr_None: "map_of s key = None \<Longrightarrow> \<exists>e. getattr s key = Inl e"
  by (simp add: getattr_def)

lemma bind_Inr [simp]: "bind (Inr x) f = f x"
  by (simp add: bind_def)

lemma bind_Inl [simp]: "bind (Inl e) f = Inl e"
  by (simp add: bind_def)

text \<open>A call of \<open>update_state\<close> with one field, or two, that the state has.\<close>

lemma update_state_one:
  assumes "map_of (state w) key \<noteq> None"
    and "key \<noteq> ''__class__''" "key \<noteq> ''__dict__''" "key \<noteq> ''__weakref__''"
  shows "update_state w [(key, v)] =
           (Inr (),
            emit logger INFO (''State updated: '' @ py_repr_items [(key, v)])
              (w\<lparr>state := dict_set key v (state w)\<rparr>))"
  using assms
  by (simp add: update_state_def update_entry_def hasattr_def setattr_def py_repr_kwargs_def
      py_repr_items_def)

lemma update_state_two:
  assumes "map_of (state w) key \<noteq> None" "map_of (state w) key' \<noteq> None"
    and "key \<noteq> ''__class__''" "key \<noteq> ''__dict__''" "key \<noteq> ''__weakref__''"
    and "key' \<noteq> ''__class__''" "key' \<noteq> ''__dict__''" "key' \<noteq> ''__weakref__''"
  shows "update_state w [(key, v), (key', v')] =
           (Inr (),
            emit logger INFO (''State updated: '' @ py_repr_items [(key, v), (key', v')])
              (w\<lparr>state := dict_set key' v' (dict_set key v (state w))\<rparr>))"
  using assms
  by (auto simp add: update_state_def update_entry_def hasattr_def setattr_def py_repr_kwargs_def
      py_repr_items_def map_of_dict_set)

lemma call_update_state_intact:
  "method_intact w \<Longrightarrow> call_update_state w kwargs = update_state w kwargs"
  by (simp add: call_update_state_def method_intact_def)

lemma call_update_state_overwritten:
  "\<not> method_intact w \<Longrightarrow> \<exists>e. call_update_state w kwargs = (Inl e, w)"
  by (auto simp: call_update_state_def method_intact_def)

lemma field_names_mem [simp]:
  "''interest_area'' \<in> set field_names" "''suggested_streams'' \<in> set field_names"
  "''user_location'' \<in> set field_names" "''target_stream'' \<in> set field_names"
  "''college_results'' \<in> set field_names" "''criteria_details'' \<in> set field_names"
  "''reviewer_notes'' \<in> set field_names" "''final_summary'' \<in> set field_names"
  by (simp_all add: field_names_def)

lemma intact_field: "intact w \<Longrightarrow> key \<in> set field_names \<Longrightarrow> map_of (state w) key \<noteq> None"
  using has_fields_field [of "state w" key] by (auto simp add: intact_def)

lemma intact_store:
  "intact w \<Longrightarrow> state w' = dict_set key v (state w) \<Longrightarrow> key \<noteq> ''update_state'' \<Longrightarrow> intact w'"
  by (simp add: intact_def has_fields_dict_set method_intact_def map_of_dict_set)

text \<open>What an agent writes on an intact state: the call of \<open>update_state\<close> with a field.\<close>

lemma call_update_field:
  assumes "intact w" and "key \<in> set field_names"
  shows "call_update_state w [(key, v)] =
           (Inr (),
            emit logger INFO (''State updated: '' @ py_repr_items [(key, v)])
              (w\<lparr>state := dict_set key v (state w)\<rparr>))"
proof -
  from assms(1) have m: "method_intact w" by (simp add: intact_def)
  from assms(2) have k: "key \<noteq> ''__class__''" "key \<noteq> ''__dict__''" "key \<noteq> ''__weakref__''"
    by (auto simp add: field_names_def)
  show ?thesis
    unfolding call_update_state_intact [OF m]
    by (rule update_state_one [OF intact_field [OF assms] k])
qed

lemma InterestAgent_intact:
  assumes "intact w"
  shows "fst (InterestAgent_execute nm w) = Inr ''NEXT_STATE''"
    and "state (snd (InterestAgent_execute nm w))
           = dict_set ''interest_area'' (PStr mock_interest) (state w)"
  by (simp_all add: InterestAgent_execute_def call_update_field [OF assms])

lemma call_update_fields:
  assumes "intact w" and "key \<in> set field_names" and "key' \<in> set field_names"
  shows "call_update_state w [(key, v), (key', v')] =
           (Inr (),
            emit logger INFO (''State updated: '' @ py_repr_items [(key, v), (key', v')])
              (w\<lparr>state := dict_set key' v' (dict_set key v (state w))\<rparr>))"
proof -
  from assms(1) have m: "method_intact w" by (simp add: intact_def)
  from assms(2) have k: "key \<noteq> ''__class__''" "key \<noteq> ''__dict__''" "key \<noteq> ''__weakref__''"
    by (auto simp add: field_names_def)
  from assms(3) have k': "key' \<noteq> ''__class__''" "key' \<noteq> ''__dict__''" "key' \<noteq> ''__weakref__''"
    by (auto simp add: field_names_def)
  show ?thesis
    unfolding call_update_state_intact [OF m]
    by (rule update_state_two [OF intact_field [OF assms(1,2)] intact_field [OF assms(1,3)] k k'])
qed

lemma StreamResearchAgent_missing:
  "map_of (state w) ''interest_area'' = Some v \<Longrightarrow> \<not> truthy v \<Longrightarrow>
   StreamResearchAgent_execute nm w =
     (Inr ''ERROR_STATE'',
      emit (agent_logger nm) ERROR ''Interest area missing. Cannot research streams.'' w)"
  by (simp add: StreamResearchAgent_execute_def getattr_Some)

lemma StreamResearchAgent_intact:
  assumes "intact w" "map_of (state w) ''interest_area'' = Some v" "truthy v"
  shows "fst (StreamResearchAgent_execute nm w) = Inr ''AWAIT_SELECTION''"
    and "state (snd (StreamResearchAgent_execute nm w))
           = dict_set ''suggested_streams'' (PStr mock_streams) (state w)"
  using assms(2,3)
  by (simp_all add: StreamResearchAgent_execute_def getattr_Some call_update_field [OF assms(1)])

lemma LocationAgent_intact:
  assumes "intact w"
  shows "fst (LocationAgent_execute nm w) = Inr ''NEXT_STATE''"
    and "state (snd (LocationAgent_execute nm w))
           = dict_set ''target_stream'' (PStr mock_selection)
               (dict_set ''user_location'' (PDict mock_location) (state w))"
proof -
  from intact_field [OF assms, of "''suggested_streams''"] obtain v where
    v: "map_of (state w) ''suggested_streams'' = Some v" by auto
  show "fst (LocationAgent_execute nm w) = Inr ''NEXT_STATE''"
    by (simp add: LocationAgent_execute_def getattr_Some [OF v] call_update_fields assms)
  show "state (snd (LocationAgent_execute nm w))
           = dict_set ''target_stream'' (PStr mock_selection)
               (dict_set ''user_location'' (PDict mock_location) (state w))"
    by (simp add: LocationAgent_execute_def getattr_Some [OF v] call_update_fields assms)
qed

lemma has_city_state_subscript:
  "has_city_state v \<Longrightarrow> \<exists>c s. subscript v ''city'' = Inr (PStr c) \<and> subscript v ''state'' = Inr (PStr s)"
  by (cases v) auto

lemma subscript_has_city_state:
  "subscript v ''city'' = Inr c \<Longrightarrow> subscript v ''state'' = Inr s \<Longrightarrow> has_city_state v"
  by (cases v) (auto split: option.splits)

lemma has_city_state_truthy: "has_city_state v \<Longrightarrow> truthy v"
  by (cases v) auto

lemma college_inputs_missing:
  "map_of s ''target_stream'' = Some a \<Longrightarrow> map_of s ''user_location'' = Some b \<Longrightarrow>
   \<not> truthy a \<or> \<not> truthy b \<Longrightarrow> college_inputs s = Inr False"
  by (auto simp add: college_inputs_def getattr_Some)

lemma college_inputs_ok:
  "map_of s ''target_stream'' = Some a \<Longrightarrow> map_of s ''user_location'' = Some b \<Longrightarrow>
   truthy a \<Longrightarrow> has_city_state b \<Longrightarrow> college_inputs s = Inr True"
  using has_city_state_subscript [of b] has_city_state_truthy [of b]
  by (auto simp add: college_inputs_def getattr_Some)

lemma college_inputs_raises:
  assumes "map_of s ''target_stream'' = Some a" "map_of s ''user_location'' = Some b"
    "truthy a" "truthy b" "\<not> has_city_state b"
  shows "\<exists>e. college_inputs s = Inl e"
proof (cases "subscript b ''city''")
  case (Inl e)
  with assms show ?thesis by (simp add: college_inputs_def getattr_Some)
next
  case (Inr c)
  show ?thesis
  proof (cases "subscript b ''state''")
    case (Inl e)
    with Inr assms show ?thesis by (simp add: college_inputs_def getattr_Some)
  next
    case Inr2: (Inr st)
    from subscript_has_city_state [OF Inr Inr2] assms(5) show ?thesis by simp
  qed
qed

lemma CollegeResearchAgent_missing:
  "map_of (state w) ''target_stream'' = Some a \<Longrightarrow> map_of (state w) ''user_location'' = Some b \<Longrightarrow>
   \<not> truthy a \<or> \<not> truthy b \<Longrightarrow>
   CollegeResearchAgent_execute nm w =
     (Inr ''ERROR_STATE'',
      emit (agent_logger nm) ERROR ''Stream or Location missing. Cannot research colleges.'' w)"
  by (simp add: CollegeResearchAgent_execute_def college_inputs_missing)

lemma CollegeResearchAgent_intact:
  assumes "intact w" "map_of (state w) ''target_stream'' = Some a"
    "map_of (state w) ''user_location'' = Some b" "truthy a" "has_city_state b"
  shows "fst (CollegeResearchAgent_execute nm w) = Inr ''NEXT_STATE''"
    and "state (snd (CollegeResearchAgent_execute nm w))
           = dict_set ''college_results'' (PStr mock_colleges) (state w)"
  by (simp_all add: CollegeResearchAgent_execute_def college_inputs_ok [OF assms(2-5)]
      call_update_field [OF assms(1)])

lemma CollegeResearchAgent_raises:
  assumes "map_of (state w) ''target_stream'' = Some a" "map_of (state w) ''user_location'' = Some b"
    "truthy a" "truthy b" "\<not> has_city_state b"
  shows "\<exists>e. CollegeResearchAgent_execute nm w = (Inl e, w)"
  using college_inputs_raises [OF assms] by (auto simp add: CollegeResearchAgent_execute_def)

lemma CriteriaAgent_missing:
  "map_of (state w) ''college_results'' = Some a \<Longrightarrow> map_of (state w) ''target_stream'' = Some b \<Longrightarrow>
   \<not> truthy a \<or> \<not> truthy b \<Longrightarrow>
   CriteriaAgent_execute nm w =
     (Inr ''ERROR_STATE'',
      emit (agent_logger nm) ERROR ''College results missing. Cannot find criteria.'' w)"
  by (auto simp add: CriteriaAgent_execute_def criteria_inputs_def getattr_Some)

lemma CriteriaAgent_intact:
  assumes "intact w" "map_of (state w) ''college_results'' = Some a"
    "map_of (state w) ''target_stream'' = Some b" "truthy a" "truthy b"
  shows "fst (CriteriaAgent_execute nm w) = Inr ''NEXT_STATE''"
    and "state (snd (CriteriaAgent_execute nm w))
           = dict_set ''criteria_details'' (PStr mock_criteria) (state w)"
  using assms(2-5)
  by (simp_all add: CriteriaAgent_execute_def criteria_inputs_def getattr_Some
      call_update_field [OF assms(1)])

lemma data_to_review_intact: "intact w \<Longrightarrow> \<exists>d. data_to_review (state w) = Inr d"
  using intact_field [of w "''interest_area''"] intact_field [of w "''suggested_streams''"]
    intact_field [of w "''user_location''"] intact_field [of w "''college_results''"]
    intact_field [of w "''criteria_details''"]
  by (auto simp add: data_to_review_def getattr_Some)

lemma ReviewerAgent_intact:
  assumes "intact w"
  shows "fst (ReviewerAgent_execute nm w) = Inr ''NEXT_STATE''"
    and "state (snd (ReviewerAgent_execute nm w))
           = dict_set ''reviewer_notes'' (PStr mock_review_notes) (state w)"
  using data_to_review_intact [OF assms]
  by (auto simp add: ReviewerAgent_execute_def call_update_field [OF assms])

lemma compose_summary_Some:
  assumes "map_of s ''interest_area'' = Some interest" "map_of s ''target_stream'' = Some stream"
    "map_of s ''suggested_streams'' = Some streams" "map_of s ''user_location'' = Some location"
    "map_of s ''college_results'' = Some colleges" "map_of s ''criteria_details'' = Some criteria"
    "map_of s ''reviewer_notes'' = Some notes"
    "subscript location ''city'' = Inr city" "subscript location ''state'' = Inr st"
  shows "compose_summary s =
           Inr (summary_text interest stream streams city st colleges criteria notes)"
  using assms by (simp add: compose_summary_def getattr_Some)

lemma summary_text_nonempty [simp]: "summary_text i t ss c st co cr n \<noteq> []"
  by (simp add: summary_text_def nl_def)

lemma compose_summary_intact:
  assumes "intact w" "map_of (state w) ''user_location'' = Some b" "has_city_state b"
  shows "\<exists>t. compose_summary (state w) = Inr t \<and> t \<noteq> []"
proof -
  from has_city_state_subscript [OF assms(3)] obtain c st where
    cs: "subscript b ''city'' = Inr (PStr c)" "subscript b ''state'' = Inr (PStr st)" by blast
  from intact_field [OF assms(1), of "''interest_area''"] obtain v1 where
    v1: "map_of (state w) ''interest_area'' = Some v1" by auto
  from intact_field [OF assms(1), of "''target_stream''"] obtain v2 where
    v2: "map_of (state w) ''target_stream'' = Some v2" by auto
  from intact_field [OF assms(1), of "''suggested_streams''"] obtain v3 where
    v3: "map_of (state w) ''suggested_streams'' = Some v3" by auto
  from intact_field [OF assms(1), of "''college_results''"] obtain v4 where
    v4: "map_of (state w) ''college_results'' = Some v4" by auto
  from intact_field [OF assms(1), of "''criteria_details''"] obtain v5 where
    v5: "map_of (state w) ''criteria_details'' = Some v5" by auto
  from intact_field [OF assms(1), of "''reviewer_notes''"] obtain v6 where
    v6: "map_of (state w) ''reviewer_notes'' = Some v6" by auto
  from compose_summary_Some [OF v1 v2 v3 assms(2) v4 v5 v6 cs] show ?thesis by simp
qed

lemma compose_summary_raises:
  assumes "intact w" "map_of (state w) ''user_location'' = Some b" "\<not> has_city_state b"
  shows "\<exists>e. compose_summary (state w) = Inl e"
proof -
  from intact_field [OF assms(1), of "''interest_area''"] obtain v1 where
    v1: "map_of (state w) ''interest_area'' = Some v1" by auto
  from intact_field [OF assms(1), of "''target_stream''"] obtain v2 where
    v2: "map_of (state w) ''target_stream'' = Some v2" by auto
  from intact_field [OF assms(1), of "''suggested_streams''"] obtain v3 where
    v3: "map_of (state w) ''suggested_streams'' = Some v3" by auto
  show ?thesis
  proof (cases "subscript b ''city''")
    case (Inl e)
    with v1 v2 v3 assms(2) show ?thesis by (simp add: compose_summary_def getattr_Some)
  next
    case (Inr c)
    show ?thesis
    proof (cases "subscript b ''state''")
      case (Inl e)
      with Inr v1 v2 v3 assms(2) show ?thesis by (simp add: compose_summary_def getattr_Some)
    next
      case Inr2: (Inr st)
      from subscript_has_city_state [OF Inr Inr2] assms(3) show ?thesis by simp
    qed
  qed
qed

lemma SummaryAgent_intact:
  assumes "intact w" "compose_summary (state w) = Inr t"
  shows "fst (SummaryAgent_execute nm w) = Inr ''FLOW_COMPLETE''"
    and "state (snd (SummaryAgent_execute nm w)) = dict_set ''final_summary'' (PStr t) (state w)"
  by (simp_all add: SummaryAgent_execute_def assms(2) call_update_field [OF assms(1)])

lemma SummaryAgent_raises:
  "compose_summary (state w) = Inl e \<Longrightarrow> SummaryAgent_execute nm w = (Inl e, w)"
  by (simp add: SummaryAgent_execute_def)

section \<open>Basic facts about the loop\<close>

lemma run_loop_end:
  "length agents \<le> i \<Longrightarrow> run_loop fuel agents i ex w = Some (Sequence_end, ex, w)"
  by (cases fuel) simp_all

lemma run_loop_turn:
  "i < length agents \<Longrightarrow>
   run_loop (Suc fuel) agents i ex w =
     (case loop_body agents i w of
        Break h w' \<Rightarrow> Some (h, ex @ [i], w')
      | Next j w' \<Rightarrow> run_loop fuel agents j (ex @ [i]) w')"
  by simp

lemma loop_body_cases:
  "loop_body agents i w =
     (case execute (agents ! i) (announce (agents ! i) w) of
        (Inr result, w2) \<Rightarrow>
          if result = ''FLOW_COMPLETE'' then
            Break Flow_complete (emit logger INFO ''Flow successfully completed.'' w2)
          else if result = ''ERROR_STATE'' then
            Break Error_state
              (emit logger ERROR (''Flow stopped due to error in '' @ name (agents ! i) @ ''.'') w2)
          else if result = ''NEXT_STATE'' \<or> result = ''AWAIT_SELECTION'' then Next (i + 1) w2
          else Next i w2
      | (Inl e, w2) \<Rightarrow>
          Break (Unhandled e)
            (emit logger CRITICAL
               (''Unhandled exception in '' @ name (agents ! i) @ '': '' @ exn_str e) w2))"
  by (simp add: loop_body_def Let_def)

lemma loop_body_signal:
  assumes "\<And>r. fst (execute (agents ! i) (announce (agents ! i) w)) = Inr r \<Longrightarrow> r \<in> set control_signals"
  shows "(\<exists>h w'. loop_body agents i w = Break h w') \<or> (\<exists>w'. loop_body agents i w = Next (Suc i) w')"
proof (cases "execute (agents ! i) (announce (agents ! i) w)")
  case (Pair out w2)
  show ?thesis
  proof (cases out)
    case (Inl e)
    with Pair show ?thesis by (simp add: loop_body_cases)
  next
    case (Inr r)
    with Pair assms have "r \<in> set control_signals" by simp
    with Pair Inr show ?thesis by (auto simp add: loop_body_cases control_signals_def)
  qed
qed

lemma run_loop_bounded:
  assumes sig: "\<And>a w r. a \<in> set agents \<Longrightarrow> fst (execute a w) = Inr r \<Longrightarrow> r \<in> set control_signals"
  shows "i \<le> length agents \<Longrightarrow> length agents - i \<le> fuel \<Longrightarrow>
         \<exists>h j w'. run_loop fuel agents i ex w = Some (h, ex @ [i..<j], w') \<and> i \<le> j \<and> j \<le> length agents"
proof (induction fuel arbitrary: i ex w)
  case 0
  then have "length agents \<le> i" by simp
  then have "run_loop 0 agents i ex w = Some (Sequence_end, ex @ [i..<i], w)" by simp
  with 0 show ?case by blast
next
  case (Suc fuel)
  show ?case
  proof (cases "i < length agents")
    case False
    then have "run_loop (Suc fuel) agents i ex w = Some (Sequence_end, ex @ [i..<i], w)" by simp
    with Suc.prems show ?thesis by blast
  next
    case True
    then have mem: "agents ! i \<in> set agents" by simp
    from loop_body_signal [of agents i w] sig [OF mem]
    consider (brk) h w' where "loop_body agents i w = Break h w'"
      | (nxt) w' where "loop_body agents i w = Next (Suc i) w'" by blast
    then show ?thesis
    proof cases
      case brk
      with True have "run_loop (Suc fuel) agents i ex w = Some (h, ex @ [i..<Suc i], w')" by simp
      with True show ?thesis by (metis Suc_leI le_SucI order_refl)
    next
      case nxt
      from True Suc.prems have "Suc i \<le> length agents" "length agents - Suc i \<le> fuel" by simp_all
      from Suc.IH [OF this, of "ex @ [i]" w'] obtain h j w'' where
        r: "run_loop fuel agents (Suc i) (ex @ [i]) w' = Some (h, (ex @ [i]) @ [Suc i..<j], w'')"
        and j: "Suc i \<le> j" "j \<le> length agents" by blast
      from j have "[i] @ [Suc i..<j] = [i..<j]" by (simp add: upt_conv_Cons)
      then have "(ex @ [i]) @ [Suc i..<j] = ex @ [i..<j]" by simp
      with r nxt True have "run_loop (Suc fuel) agents i ex w = Some (h, ex @ [i..<j], w'')" by simp
      with j show ?thesis by (metis Suc_leD)
    qed
  qed
qed

text \<open>
  A step that keeps returning a string the loop has no branch for is executed again
  and again: no amount of fuel lets the loop return.
\<close>

lemma run_loop_unknown_signal:
  assumes "\<And>w. execute a w = (Inr ''RETRY'', w)"
  shows "run_loop fuel [a] 0 ex w = None"
proof (induction fuel arbitrary: ex w)
  case 0
  show ?case by simp
next
  case (Suc fuel)
  have "loop_body [a] 0 w = Next 0 (announce a w)"
    by (simp add: loop_body_cases assms)
  with Suc.IH show ?case by simp
qed

section \<open>The agents of the source in the loop\<close>

lemma method_of_signals:
  "fst (method_of cls nm w) = Inr r \<Longrightarrow> r \<in> set control_signals"
proof (cases cls)
  case MockAgent
  then show "fst (method_of cls nm w) = Inr r \<Longrightarrow> ?thesis"
    by (simp add: MockAgent_execute_def)
next
  case InterestAgent
  then show "fst (method_of cls nm w) = Inr r \<Longrightarrow> ?thesis"
    by (auto simp add: InterestAgent_execute_def control_signals_def
        split: sum.splits prod.splits)
next
  case StreamResearchAgent
  then show "fst (method_of cls nm w) = Inr r \<Longrightarrow> ?thesis"
    by (auto simp add: StreamResearchAgent_execute_def control_signals_def
        split: sum.splits prod.splits if_splits)
next
  case LocationAgent
  then show "fst (method_of cls nm w) = Inr r \<Longrightarrow> ?thesis"
    by (auto simp add: LocationAgent_execute_def control_signals_def
        split: sum.splits prod.splits)
next
  case CollegeResearchAgent
  then show "fst (method_of cls nm w) = Inr r \<Longrightarrow> ?thesis"
    by (auto simp add: CollegeResearchAgent_execute_def control_signals_def
        split: sum.splits prod.splits bool.splits)
next
  case CriteriaAgent
  then show "fst (method_of cls nm w) = Inr r \<Longrightarrow> ?thesis"
    by (auto simp add: CriteriaAgent_execute_def control_signals_def
        split: sum.splits prod.splits bool.splits)
next
  case ReviewerAgent
  then show "fst (method_of cls nm w) = Inr r \<Longrightarrow> ?thesis"
    by (auto simp add: ReviewerAgent_execute_def control_signals_def
        split: sum.splits prod.splits)
next
  case SummaryAgent
  then show "fst (method_of cls nm w) = Inr r \<Longrightarrow> ?thesis"
    by (auto simp add: SummaryAgent_execute_def control_signals_def
        split: sum.splits prod.splits)
qed

lemma agents_of_member:
  "a \<in> set (agents_of specs env) \<Longrightarrow> \<exists>cls nm. a = new_agent cls nm env"
  by (auto simp add: agents_of_def)

lemma agents_of_signals:
  "a \<in> set (agents_of specs env) \<Longrightarrow> fst (execute a w) = Inr r \<Longrightarrow> r \<in> set control_signals"
  using agents_of_member [of a specs env] method_of_signals
  by (auto simp add: new_agent_def)

lemma length_agents_of [simp]: "length (agents_of specs env) = length specs"
  by (simp add: agents_of_def)

lemma agent_sequence_agents_of:
  "agent_sequence env =
     agents_of [(InterestAgent, ''A1_InterestCapture''), (StreamResearchAgent, ''A2_StreamResearch''),
                (LocationAgent, ''A3_LocationCapture''), (CollegeResearchAgent, ''A4_CollegeSearch''),
                (CriteriaAgent, ''A5_CriteriaSearch''), (ReviewerAgent, ''A6_Reviewer''),
                (SummaryAgent, ''A7_Summary'')] env"
  by (simp add: agent_sequence_def agents_of_def)

lemma length_agent_sequence [simp]: "length (agent_sequence env) = 7"
  by (simp add: agent_sequence_def)

lemma agent_sequence_signals:
  "a \<in> set (agent_sequence env) \<Longrightarrow> fst (execute a w) = Inr r \<Longrightarrow> r \<in> set control_signals"
  unfolding agent_sequence_agents_of by (rule agents_of_signals)

lemma run_loop_advance:
  assumes adv: "\<And>j. j < k \<Longrightarrow>
                  result_at agents w j = Inr ''NEXT_STATE'' \<or> result_at agents w j = Inr ''AWAIT_SELECTION''"
    and k: "k \<le> length agents"
  shows "i \<le> k \<Longrightarrow> d = k - i \<Longrightarrow>
         run_loop (n + d) agents i ex (world_at agents w i) =
         run_loop n agents k (ex @ [i..<k]) (world_at agents w k)"
proof (induction d arbitrary: i ex)
  case 0
  then have "i = k" by simp
  then show ?case by simp
next
  case (Suc d)
  then have lt: "i < k" by simp
  with k have il: "i < length agents" by simp
  from adv [OF lt]
  have "loop_body agents i (world_at agents w i) = Next (Suc i) (world_at agents w (Suc i))"
    by (cases "execute (agents ! i) (announce (agents ! i) (world_at agents w i))")
      (auto simp add: result_at_def loop_body_cases)
  with il have step: "run_loop (n + Suc d) agents i ex (world_at agents w i) =
      run_loop (n + d) agents (Suc i) (ex @ [i]) (world_at agents w (Suc i))"
    by simp
  from lt Suc.prems have "Suc i \<le> k" "d = k - Suc i" by simp_all
  from Suc.IH [OF this, of "ex @ [i]"]
  have "run_loop (n + d) agents (Suc i) (ex @ [i]) (world_at agents w (Suc i)) =
        run_loop n agents k ((ex @ [i]) @ [Suc i..<k]) (world_at agents w k)" .
  moreover from lt have "(ex @ [i]) @ [Suc i..<k] = ex @ [i..<k]" by (simp add: upt_conv_Cons)
  ultimately show ?case using step by simp
qed

lemma run_loop_reaches:
  assumes "\<And>j. j < k \<Longrightarrow>
             result_at agents w j = Inr ''NEXT_STATE'' \<or> result_at agents w j = Inr ''AWAIT_SELECTION''"
    and "k < length agents" and "k < fuel"
  shows "run_loop fuel agents 0 [] w =
         (case loop_body agents k (world_at agents w k) of
            Break h w' \<Rightarrow> Some (h, [0..<Suc k], w')
          | Next j w' \<Rightarrow> run_loop (fuel - Suc k) agents j [0..<Suc k] w')"
proof -
  define m where "m = fuel - Suc k"
  with assms(3) have m: "fuel = Suc m + k" by simp
  from assms(2) have kl: "k \<le> length agents" by simp
  have upt: "[0..<k] @ [k] = [0..<Suc k]" by simp
  have "run_loop (Suc m + k) agents 0 [] (world_at agents w 0) =
        run_loop (Suc m) agents k ([] @ [0..<k]) (world_at agents w k)"
    by (rule run_loop_advance [OF assms(1) kl]) simp_all
  then have "run_loop fuel agents 0 [] w = run_loop (Suc m) agents k [0..<k] (world_at agents w k)"
    unfolding m by simp
  also have "\<dots> = (case loop_body agents k (world_at agents w k) of
            Break h w' \<Rightarrow> Some (h, [0..<k] @ [k], w')
          | Next j w' \<Rightarrow> run_loop m agents j ([0..<k] @ [k]) w')"
    using assms(2) by (rule run_loop_turn)
  finally show ?thesis unfolding upt m_def .
qed

lemma run_loop_error_break:
  assumes "\<And>j. j < k \<Longrightarrow>
             result_at agents w j = Inr ''NEXT_STATE'' \<or> result_at agents w j = Inr ''AWAIT_SELECTION''"
    and "result_at agents w k = Inr ''ERROR_STATE''"
    and "k < length agents" and "k < fuel"
  shows "run_loop fuel agents 0 [] w =
           Some (Error_state, [0..<Suc k],
                 emit logger ERROR (''Flow stopped due to error in '' @ name (agents ! k) @ ''.'')
                   (world_at agents w (Suc k)))"
proof -
  from assms(2)
  have "loop_body agents k (world_at agents w k) =
          Break Error_state
            (emit logger ERROR (''Flow stopped due to error in '' @ name (agents ! k) @ ''.'')
               (world_at agents w (Suc k)))"
    by (cases "execute (agents ! k) (announce (agents ! k) (world_at agents w k))")
      (auto simp add: result_at_def loop_body_cases)
  with run_loop_reaches [OF assms(1,3,4)] show ?thesis by simp
qed

lemma run_loop_complete_break:
  assumes "\<And>j. j < k \<Longrightarrow>
             result_at agents w j = Inr ''NEXT_STATE'' \<or> result_at agents w j = Inr ''AWAIT_SELECTION''"
    and "result_at agents w k = Inr ''FLOW_COMPLETE''"
    and "k < length agents" and "k < fuel"
  shows "run_loop fuel agents 0 [] w =
           Some (Flow_complete, [0..<Suc k],
                 emit logger INFO ''Flow successfully completed.'' (world_at agents w (Suc k)))"
proof -
  from assms(2)
  have "loop_body agents k (world_at agents w k) =
          Break Flow_complete
            (emit logger INFO ''Flow successfully completed.'' (world_at agents w (Suc k)))"
    by (cases "execute (agents ! k) (announce (agents ! k) (world_at agents w k))")
      (auto simp add: result_at_def loop_body_cases)
  with run_loop_reaches [OF assms(1,3,4)] show ?thesis by simp
qed

lemma run_loop_exception_break:
  assumes "\<And>j. j < k \<Longrightarrow>
             result_at agents w j = Inr ''NEXT_STATE'' \<or> result_at agents w j = Inr ''AWAIT_SELECTION''"
    and "result_at agents w k = Inl e"
    and "k < length agents" and "k < fuel"
  shows "run_loop fuel agents 0 [] w =
           Some (Unhandled e, [0..<Suc k],
                 emit logger CRITICAL
                   (''Unhandled exception in '' @ name (agents ! k) @ '': '' @ exn_str e)
                   (world_at agents w (Suc k)))"
proof -
  from assms(2)
  have "loop_body agents k (world_at agents w k) =
          Break (Unhandled e)
            (emit logger CRITICAL
               (''Unhandled exception in '' @ name (agents ! k) @ '': '' @ exn_str e)
               (world_at agents w (Suc k)))"
    by (cases "execute (agents ! k) (announce (agents ! k) (world_at agents w k))")
      (auto simp add: result_at_def loop_body_cases)
  with run_loop_reaches [OF assms(1,3,4)] show ?thesis by simp
qed

lemma state_announce [simp]: "state (announce a w) = state w"
  by (simp add: announce_def)

lemma intact_announce [simp]: "intact (announce a w) = intact w"
  by (simp add: announce_def)

lemma state_fresh [simp]: "state fresh_world = CareerState_init"
  by (simp add: fresh_world_def)

lemma CareerState_init_fields [simp]:
  "map_of CareerState_init ''interest_area'' = Some PNone"
  "map_of CareerState_init ''suggested_streams'' = Some PNone"
  "map_of CareerState_init ''user_location'' = Some PNone"
  "map_of CareerState_init ''target_stream'' = Some PNone"
  "map_of CareerState_init ''college_results'' = Some PNone"
  "map_of CareerState_init ''criteria_details'' = Some PNone"
  "map_of CareerState_init ''reviewer_notes'' = Some PNone"
  "map_of CareerState_init ''final_summary'' = Some PNone"
  "map_of CareerState_init ''update_state'' = None"
  by (simp_all add: CareerState_init_def field_names_def)

lemma has_fields_init [simp]: "has_fields CareerState_init"
  by (simp add: has_fields_def CareerState_init_def field_names_def)

lemma intact_init: "state w = CareerState_init \<Longrightarrow> intact w"
  by (simp add: intact_def method_intact_def)

lemma intact_fresh [simp]: "intact fresh_world"
  by (simp add: intact_init)

lemma execute_new_agent [simp]: "execute (new_agent cls nm env) = method_of cls nm"
  by (simp add: new_agent_def)

lemma name_new_agent [simp]: "name (new_agent cls nm env) = nm"
  by (simp add: new_agent_def)

section \<open>The seven agents in order\<close>

lemma mock_truthy [simp]:
  "mock_interest \<noteq> []" "mock_streams \<noteq> []" "mock_selection \<noteq> []"
  "mock_colleges \<noteq> []" "mock_criteria \<noteq> []" "mock_location \<noteq> []"
  by (simp_all add: mock_interest_def mock_streams_def mock_selection_def mock_colleges_def
      mock_criteria_def mock_location_def)

lemma mock_location_entries [simp]:
  "map_of mock_location ''city'' = Some ''Berkeley''"
  "map_of mock_location ''state'' = Some ''California''"
  by (simp_all add: mock_location_def)

text \<open>The seven agents, run in order from a world whose state is fresh.\<close>

lemma canonical_states:
  fixes env :: "(string \<times> string) list"
  assumes w: "state w = CareerState_init"
  defines "seq \<equiv> agent_sequence env"
  shows "\<And>j. j < 6 \<Longrightarrow> result_at seq w j = Inr ''NEXT_STATE'' \<or> result_at seq w j = Inr ''AWAIT_SELECTION''"
    and "result_at seq w 6 = Inr ''FLOW_COMPLETE''"
    and "state (world_at seq w 7) = dict_set ''final_summary'' (PStr final_text) researched_state"
proof -
  have n0: "seq ! 0 = new_agent InterestAgent ''A1_InterestCapture'' env"
    and n1: "seq ! Suc 0 = new_agent StreamResearchAgent ''A2_StreamResearch'' env"
    and n2: "seq ! 2 = new_agent LocationAgent ''A3_LocationCapture'' env"
    and n3: "seq ! 3 = new_agent CollegeResearchAgent ''A4_CollegeSearch'' env"
    and n4: "seq ! 4 = new_agent CriteriaAgent ''A5_CriteriaSearch'' env"
    and n5: "seq ! 5 = new_agent ReviewerAgent ''A6_Reviewer'' env"
    and n6: "seq ! 6 = new_agent SummaryAgent ''A7_Summary'' env"
    by (simp_all add: seq_def agent_sequence_def)
  have s0: "state (world_at seq w 0) = CareerState_init"
    using w by simp
  have i0: "intact (world_at seq w 0)"
    using s0 by (rule intact_init)
  have a0: "intact (announce (seq ! 0) (world_at seq w 0))"
    using i0 by (simp del: world_at.simps)
  have r0: "result_at seq w 0 = Inr ''NEXT_STATE''"
    unfolding result_at_def n0 execute_new_agent method_of.simps
    by (rule InterestAgent_intact(1) [OF a0, unfolded n0])
  have w1: "world_at seq w (Suc 0) = snd (InterestAgent_execute ''A1_InterestCapture'' (announce (seq ! 0) (world_at seq w 0)))"
    using world_at.simps(2) [of seq w "0"] by (simp del: world_at.simps add: n0)
  have s1: "state (world_at seq w (Suc 0)) = dict_set ''interest_area'' (PStr mock_interest) (CareerState_init)"
    unfolding w1 using InterestAgent_intact(2) [OF a0, of "''A1_InterestCapture''"]
    by (simp del: world_at.simps add: s0)
  have i1: "intact (world_at seq w (Suc 0))"
    unfolding intact_def method_intact_def s1
    by (simp add: has_fields_dict_set map_of_dict_set)
  have a1: "intact (announce (seq ! Suc 0) (world_at seq w (Suc 0)))"
    using i1 by (simp del: world_at.simps)
  have v10: "map_of (state (announce (seq ! Suc 0) (world_at seq w (Suc 0)))) ''interest_area'' = Some (PStr mock_interest)"
    by (simp del: world_at.simps add: s1 map_of_dict_set)
  have t10: "truthy (PStr mock_interest)" by simp
  have r1: "result_at seq w (Suc 0) = Inr ''AWAIT_SELECTION''"
    unfolding result_at_def n1 execute_new_agent method_of.simps
    by (rule StreamResearchAgent_intact(1) [OF a1 v10 t10, unfolded n1])
  have w2: "world_at seq w 2 = snd (StreamResearchAgent_execute ''A2_StreamResearch'' (announce (seq ! Suc 0) (world_at seq w (Suc 0))))"
    using world_at.simps(2) [of seq w "Suc 0"] by (simp del: world_at.simps add: n1 numeral_2_eq_2)
  have s2: "state (world_at seq w 2) = dict_set ''suggested_streams'' (PStr mock_streams) (dict_set ''interest_area'' (PStr mock_interest) (CareerState_init))"
    unfolding w2 using StreamResearchAgent_intact(2) [OF a1 v10 t10, of "''A2_StreamResearch''"]
    by (simp del: world_at.simps add: s1)
  have i2: "intact (world_at seq w 2)"
    unfolding intact_def method_intact_def s2
    by (simp add: has_fields_dict_set map_of_dict_set)
  have a2: "intact (announce (seq ! 2) (world_at seq w 2))"
    using i2 by (simp del: world_at.simps)
  have r2: "result_at seq w 2 = Inr ''NEXT_STATE''"
    unfolding result_at_def n2 execute_new_agent method_of.simps
    by (rule LocationAgent_intact(1) [OF a2, unfolded n2])
  have w3: "world_at seq w 3 = snd (LocationAgent_execute ''A3_LocationCapture'' (announce (seq ! 2) (world_at seq w 2)))"
    using world_at.simps(2) [of seq w "2"] by (simp del: world_at.simps add: n2)
  have s3: "state (world_at seq w 3) = dict_set ''target_stream'' (PStr mock_selection) (dict_set ''user_location'' (PDict mock_location) (dict_set ''suggested_streams'' (PStr mock_streams) (dict_set ''interest_area'' (PStr mock_interest) (CareerState_init))))"
    unfolding w3 using LocationAgent_intact(2) [OF a2, of "''A3_LocationCapture''"]
    by (simp del: world_at.simps add: s2)
  have i3: "intact (world_at seq w 3)"
    unfolding intact_def method_intact_def s3
    by (simp add: has_fields_dict_set map_of_dict_set)
  have a3: "intact (announce (seq ! 3) (world_at seq w 3))"
    using i3 by (simp del: world_at.simps)
  have v30: "map_of (state (announce (seq ! 3) (world_at seq w 3))) ''target_stream'' = Some (PStr mock_selection)"
    by (simp del: world_at.simps add: s3 map_of_dict_set)
  have v31: "map_of (state (announce (seq ! 3) (world_at seq w 3))) ''user_location'' = Some (PDict mock_location)"
    by (simp del: world_at.simps add: s3 map_of_dict_set)
  have t30: "truthy (PStr mock_selection)" by simp
  have t31: "has_city_state (PDict mock_location)" by simp
  have r3: "result_at seq w 3 = Inr ''NEXT_STATE''"
    unfolding result_at_def n3 execute_new_agent method_of.simps
    by (rule CollegeResearchAgent_intact(1) [OF a3 v30 v31 t30 t31, unfolded n3])
  have w4: "world_at seq w 4 = snd (CollegeResearchAgent_execute ''A4_CollegeSearch'' (announce (seq ! 3) (world_at seq w 3)))"
    using world_at.simps(2) [of seq w "3"] by (simp del: world_at.simps add: n3)
  have s4: "state (world_at seq w 4) = dict_set ''college_results'' (PStr mock_colleges) (dict_set ''target_stream'' (PStr mock_selection) (dict_set ''user_location'' (PDict mock_location) (dict_set ''suggested_streams'' (PStr mock_streams) (dict_set ''interest_area'' (PStr mock_interest) (CareerState_init)))))"
    unfolding w4 using CollegeResearchAgent_intact(2) [OF a3 v30 v31 t30 t31, of "''A4_CollegeSearch''"]
    by (simp del: world_at.simps add: s3)
  have i4: "intact (world_at seq w 4)"
    unfolding intact_def method_intact_def s4
    by (simp add: has_fields_dict_set map_of_dict_set)
  have a4: "intact (announce (seq ! 4) (world_at seq w 4))"
    using i4 by (simp del: world_at.simps)
  have v40: "map_of (state (announce (seq ! 4) (world_at seq w 4))) ''college_results'' = Some (PStr mock_colleges)"
    by (simp del: world_at.simps add: s4 map_of_dict_set)
  have v41: "map_of (state (announce (seq ! 4) (world_at seq w 4))) ''target_stream'' = Some (PStr mock_selection)"
    by (simp del: world_at.simps add: s4 map_of_dict_set)
  have t40: "truthy (PStr mock_colleges)" by simp
  have t41: "truthy (PStr mock_selection)" by simp
  have r4: "result_at seq w 4 = Inr ''NEXT_STATE''"
    unfolding result_at_def n4 execute_new_agent method_of.simps
    by (rule CriteriaAgent_intact(1) [OF a4 v40 v41 t40 t41, unfolded n4])
  have w5: "world_at seq w 5 = snd (CriteriaAgent_execute ''A5_CriteriaSearch'' (announce (seq ! 4) (world_at seq w 4)))"
    using world_at.simps(2) [of seq w "4"] by (simp del: world_at.simps add: n4)
  have s5: "state (world_at seq w 5) = dict_set ''criteria_details'' (PStr mock_criteria) (dict_set ''college_results'' (PStr mock_colleges) (dict_set ''target_stream'' (PStr mock_selection) (dict_set ''user_location'' (PDict mock_location) (dict_set ''suggested_streams'' (PStr mock_streams) (dict_set ''interest_area'' (PStr mock_interest) (CareerState_init))))))"
    unfolding w5 using CriteriaAgent_intact(2) [OF a4 v40 v41 t40 t41, of "''A5_CriteriaSearch''"]
    by (simp del: world_at.simps add: s4)
  have i5: "intact (world_at seq w 5)"
    unfolding intact_def method_intact_def s5
    by (simp add: has_fields_dict_set map_of_dict_set)
  have a5: "intact (announce (seq ! 5) (world_at seq w 5))"
    using i5 by (simp del: world_at.simps)
  have r5: "result_at seq w 5 = Inr ''NEXT_STATE''"
    unfolding result_at_def n5 execute_new_agent method_of.simps
    by (rule ReviewerAgent_intact(1) [OF a5, unfolded n5])
  have w6: "world_at seq w 6 = snd (ReviewerAgent_execute ''A6_Reviewer'' (announce (seq ! 5) (world_at seq w 5)))"
    using world_at.simps(2) [of seq w "5"] by (simp del: world_at.simps add: n5)
  have s6: "state (world_at seq w 6) = dict_set ''reviewer_notes'' (PStr mock_review_notes) (dict_set ''criteria_details'' (PStr mock_criteria) (dict_set ''college_results'' (PStr mock_colleges) (dict_set ''target_stream'' (PStr mock_selection) (dict_set ''user_location'' (PDict mock_location) (dict_set ''suggested_streams'' (PStr mock_streams) (dict_set ''interest_area'' (PStr mock_interest) (CareerState_init)))))))"
    unfolding w6 using ReviewerAgent_intact(2) [OF a5, of "''A6_Reviewer''"]
    by (simp del: world_at.simps add: s5)
  have i6: "intact (world_at seq w 6)"
    unfolding intact_def method_intact_def s6
    by (simp add: has_fields_dict_set map_of_dict_set)
  have s6': "state (world_at seq w 6) = researched_state"
    unfolding s6 by (simp add: researched_state_def CareerState_init_def field_names_def)
  have a6: "intact (announce (seq ! 6) (world_at seq w 6))"
    using i6 by (simp del: world_at.simps)
  have c6: "compose_summary (state (announce (seq ! 6) (world_at seq w 6))) = Inr final_text"
    unfolding final_text_def
    by (rule compose_summary_Some [where location = "PDict mock_location"])
      (simp_all del: world_at.simps add: s6' researched_state_def)
  show "result_at seq w 6 = Inr ''FLOW_COMPLETE''"
    unfolding result_at_def n6 execute_new_agent method_of.simps
    by (rule SummaryAgent_intact(1) [OF a6 c6, unfolded n6])
  have w7: "world_at seq w 7 = snd (SummaryAgent_execute ''A7_Summary'' (announce (seq ! 6) (world_at seq w 6)))"
    using world_at.simps(2) [of seq w 6] by (simp del: world_at.simps add: n6)
  show "state (world_at seq w 7) = dict_set ''final_summary'' (PStr final_text) researched_state"
    unfolding w7 using SummaryAgent_intact(2) [OF a6 c6, of "''A7_Summary''"]
    by (simp del: world_at.simps add: s6')
  fix j :: nat
  assume "j < 6"
  then have "j = 0 \<or> j = Suc 0 \<or> j = 2 \<or> j = 3 \<or> j = 4 \<or> j = 5" by arith
  with r0 r1 r2 r3 r4 r5
  show "result_at seq w j = Inr ''NEXT_STATE'' \<or> result_at seq w j = Inr ''AWAIT_SELECTION''"
    by blast
qed

lemma printed_summary:
  "map_of s ''final_summary'' = Some (PStr t) \<Longrightarrow> t \<noteq> [] \<Longrightarrow> printed s = Inr (t @ nl)"
  by (simp add: printed_def getattr_Some)

lemma printed_abort:
  "map_of s ''final_summary'' = Some PNone \<Longrightarrow> printed s = Inr (abort_notice @ nl)"
  by (simp add: printed_def getattr_Some)

lemma final_text_nonempty [simp]: "final_text \<noteq> []"
  by (simp add: final_text_def)

lemma canonical_run:
  assumes "7 \<le> fuel"
  shows "\<exists>w'. run_career_builder_helper fuel lg
                 = Some (Flow_complete, [0..<7], w', Inr (final_text @ nl))
              \<and> state w' = dict_set ''final_summary'' (PStr final_text) researched_state"
proof -
  obtain env lg1 where e: "setup_adk_environment lg = (env, lg1)"
    by (cases "setup_adk_environment lg")
  define w0 where "w0 = started \<lparr>state = CareerState_init, log_records = lg1\<rparr>"
  have s0: "state w0 = CareerState_init" by (simp add: w0_def started_def)
  define w' where
    "w' = emit logger INFO ''Flow successfully completed.'' (world_at (agent_sequence env) w0 (Suc 6))"
  have "run_loop fuel (agent_sequence env) 0 [] w0 = Some (Flow_complete, [0..<Suc 6], w')"
    unfolding w'_def
    by (rule run_loop_complete_break [OF canonical_states(1,2) [OF s0]]) (use assms in simp_all)
  then have r: "run_loop fuel (agent_sequence env) 0 [] w0 = Some (Flow_complete, [0..<7], w')"
    by simp
  have st: "state w' = dict_set ''final_summary'' (PStr final_text) researched_state"
    using canonical_states(3) [OF s0, of env] by (simp del: world_at.simps add: w'_def)
  then have "printed (state w') = Inr (final_text @ nl)"
    by (simp add: printed_summary map_of_dict_set)
  with r have "run_career_builder_helper fuel lg
                 = Some (Flow_complete, [0..<7], w', Inr (final_text @ nl))"
    by (simp add: run_career_builder_helper_def e run_flow_def w0_def)
  with st show ?thesis by blast
qed

section \<open>What an agent of the source can do to a state without summary\<close>

lemma unsummarised_emit [simp]: "unsummarised (emit l lv m w) = unsummarised w"
  by (simp add: unsummarised_def)

lemma unsummarised_announce [simp]: "unsummarised (announce a w) = unsummarised w"
  by (simp add: announce_def)

lemma unsummarised_store:
  "unsummarised w \<Longrightarrow> state w' = dict_set key v (state w) \<Longrightarrow> key \<noteq> ''update_state'' \<Longrightarrow>
   key \<noteq> ''final_summary'' \<Longrightarrow> unsummarised w'"
  by (simp add: unsummarised_def intact_def has_fields_dict_set method_intact_def map_of_dict_set)

lemma unsummarised_store2:
  "unsummarised w \<Longrightarrow> state w' = dict_set key' v' (dict_set key v (state w)) \<Longrightarrow>
   key \<noteq> ''update_state'' \<Longrightarrow> key \<noteq> ''final_summary'' \<Longrightarrow>
   key' \<noteq> ''update_state'' \<Longrightarrow> key' \<noteq> ''final_summary'' \<Longrightarrow> unsummarised w'"
  by (simp add: unsummarised_def intact_def has_fields_dict_set method_intact_def map_of_dict_set)

lemma unsummarised_no_summary: "unsummarised w \<Longrightarrow> map_of (state w) ''final_summary'' = Some PNone"
  by (simp add: unsummarised_def)

lemma method_of_unsummarised:
  assumes u: "unsummarised w"
  obtains (complete) w' t where "method_of cls nm w = (Inr ''FLOW_COMPLETE'', w')"
      "map_of (state w') ''final_summary'' = Some (PStr t)" "t \<noteq> []"
  | (error) w' where "method_of cls nm w = (Inr ''ERROR_STATE'', w')" "unsummarised w'"
  | (advance) r w' where "method_of cls nm w = (Inr r, w')"
      "r = ''NEXT_STATE'' \<or> r = ''AWAIT_SELECTION''" "unsummarised w'"
  | (raise) e w' where "method_of cls nm w = (Inl e, w')" "unsummarised w'"
proof -
  from u have i: "intact w" by (simp add: unsummarised_def)
  have pair: "method_of cls nm w = (fst (method_of cls nm w), snd (method_of cls nm w))"
    by simp
  have adv: thesis
    if "fst (method_of cls nm w) = Inr r" "r = ''NEXT_STATE'' \<or> r = ''AWAIT_SELECTION''"
      "unsummarised (snd (method_of cls nm w))" for r
    using advance [of r "snd (method_of cls nm w)"] that pair by metis
  from intact_field [OF i, of "''interest_area''"] obtain v1 where
    v1: "map_of (state w) ''interest_area'' = Some v1" by auto
  from intact_field [OF i, of "''target_stream''"] obtain v2 where
    v2: "map_of (state w) ''target_stream'' = Some v2" by auto
  from intact_field [OF i, of "''user_location''"] obtain v3 where
    v3: "map_of (state w) ''user_location'' = Some v3" by auto
  from intact_field [OF i, of "''college_results''"] obtain v4 where
    v4: "map_of (state w) ''college_results'' = Some v4" by auto
  show thesis
  proof (cases cls)
    case MockAgent
    show thesis
      by (rule raise [of _ w]) (simp_all add: MockAgent MockAgent_execute_def u)
  next
    case InterestAgent
    show thesis
    proof (rule adv [of "''NEXT_STATE''"])
      show "unsummarised (snd (method_of cls nm w))"
        by (rule unsummarised_store [OF u],
            simp add: InterestAgent InterestAgent_intact [OF i],
            simp_all)
    qed (simp_all add: InterestAgent InterestAgent_intact [OF i])
  next
    case StreamResearchAgent
    show thesis
    proof (cases "truthy v1")
      case True
      show thesis
      proof (rule adv [of "''AWAIT_SELECTION''"])
        show "unsummarised (snd (method_of cls nm w))"
          by (rule unsummarised_store [OF u],
              simp add: StreamResearchAgent StreamResearchAgent_intact [OF i v1 True],
              simp_all)
      qed (simp_all add: StreamResearchAgent StreamResearchAgent_intact [OF i v1 True])
    next
      case False
      show thesis
        by (rule error, simp add: StreamResearchAgent StreamResearchAgent_missing [OF v1 False],
            simp add: u)
    qed
  next
    case LocationAgent
    show thesis
    proof (rule adv [of "''NEXT_STATE''"])
      show "unsummarised (snd (method_of cls nm w))"
        by (rule unsummarised_store2 [OF u],
            simp add: LocationAgent LocationAgent_intact [OF i],
            simp_all)
    qed (simp_all add: LocationAgent LocationAgent_intact [OF i])
  next
    case CollegeResearchAgent
    show thesis
    proof (cases "\<not> truthy v2 \<or> \<not> truthy v3")
      case True
      show thesis
        by (rule error,
            simp add: CollegeResearchAgent CollegeResearchAgent_missing [OF v2 v3 True],
            simp add: u)
    next
      case False
      then have t: "truthy v2" "truthy v3" by simp_all
      show thesis
      proof (cases "has_city_state v3")
        case True
        show thesis
        proof (rule adv [of "''NEXT_STATE''"])
          show "unsummarised (snd (method_of cls nm w))"
            by (rule unsummarised_store [OF u],
                simp add: CollegeResearchAgent CollegeResearchAgent_intact [OF i v2 v3 t(1) True],
                simp_all)
        qed (simp_all add: CollegeResearchAgent CollegeResearchAgent_intact [OF i v2 v3 t(1) True])
      next
        case False
        from CollegeResearchAgent_raises [OF v2 v3 t False, of nm] obtain e where
          "CollegeResearchAgent_execute nm w = (Inl e, w)" by blast
        then show thesis
          by (intro raise [of e w]) (simp_all add: CollegeResearchAgent u)
      qed
    qed
  next
    case CriteriaAgent
    show thesis
    proof (cases "\<not> truthy v4 \<or> \<not> truthy v2")
      case True
      show thesis
        by (rule error, simp add: CriteriaAgent CriteriaAgent_missing [OF v4 v2 True],
            simp add: u)
    next
      case False
      then have t: "truthy v4" "truthy v2" by simp_all
      show thesis
      proof (rule adv [of "''NEXT_STATE''"])
        show "unsummarised (snd (method_of cls nm w))"
          by (rule unsummarised_store [OF u],
              simp add: CriteriaAgent CriteriaAgent_intact [OF i v4 v2 t],
              simp_all)
      qed (simp_all add: CriteriaAgent CriteriaAgent_intact [OF i v4 v2 t])
    qed
  next
    case ReviewerAgent
    show thesis
    proof (rule adv [of "''NEXT_STATE''"])
      show "unsummarised (snd (method_of cls nm w))"
        by (rule unsummarised_store [OF u],
            simp add: ReviewerAgent ReviewerAgent_intact [OF i],
            simp_all)
    qed (simp_all add: ReviewerAgent ReviewerAgent_intact [OF i])
  next
    case SummaryAgent
    show thesis
    proof (cases "has_city_state v3")
      case True
      from compose_summary_intact [OF i v3 True] obtain t where
        t: "compose_summary (state w) = Inr t" "t \<noteq> []" by blast
      show thesis
      proof (rule complete)
        show "method_of cls nm w = (Inr ''FLOW_COMPLETE'', snd (SummaryAgent_execute nm w))"
          using SummaryAgent_intact(1) [OF i t(1), of nm] pair by (simp add: SummaryAgent)
        show "map_of (state (snd (SummaryAgent_execute nm w))) ''final_summary'' = Some (PStr t)"
          by (simp add: SummaryAgent_intact(2) [OF i t(1)] map_of_dict_set)
        show "t \<noteq> []" by (rule t(2))
      qed
    next
      case False
      from compose_summary_raises [OF i v3 False] obtain e where
        "compose_summary (state w) = Inl e" by blast
      from SummaryAgent_raises [OF this, of nm] show thesis
        by (intro raise [of e w]) (simp_all add: SummaryAgent u)
    qed
  qed
qed

lemma agents_of_nth:
  "i < length specs \<Longrightarrow>
   agents_of specs env ! i = new_agent (fst (specs ! i)) (snd (specs ! i)) env"
  by (simp add: agents_of_def case_prod_unfold)

lemma state_started [simp]: "state (started w) = state w"
  by (simp add: started_def)

lemma unsummarised_started: "state w = CareerState_init \<Longrightarrow> unsummarised (started w)"
  by (simp add: unsummarised_def started_def intact_init)

text \<open>
  One step of an agent of the source on a state without summary, read off the result
  of the step.
\<close>

lemma source_step:
  fixes env :: "(string \<times> string) list"
  assumes u: "unsummarised w" and k: "k < length specs"
  defines "out \<equiv> execute (agents_of specs env ! k) (announce (agents_of specs env ! k) w)"
  shows "fst out = Inr ''NEXT_STATE'' \<or> fst out = Inr ''AWAIT_SELECTION'' \<Longrightarrow>
           unsummarised (snd out)"
    and "fst out = Inr ''ERROR_STATE'' \<Longrightarrow> unsummarised (snd out)"
    and "fst out = Inl e \<Longrightarrow> unsummarised (snd out)"
    and "fst out = Inr ''FLOW_COMPLETE'' \<Longrightarrow>
           \<exists>t. t \<noteq> [] \<and> map_of (state (snd out)) ''final_summary'' = Some (PStr t)"
proof -
  let ?a = "agents_of specs env ! k"
  have o: "out = method_of (fst (specs ! k)) (snd (specs ! k)) (announce ?a w)"
    using k by (simp add: out_def agents_of_nth)
  have ua: "unsummarised (announce ?a w)" using u by simp
  show "fst out = Inr ''NEXT_STATE'' \<or> fst out = Inr ''AWAIT_SELECTION'' \<Longrightarrow>
           unsummarised (snd out)"
    using ua by (cases rule: method_of_unsummarised [of _ "fst (specs ! k)" "snd (specs ! k)"])
      (auto simp add: o)
  show "fst out = Inr ''ERROR_STATE'' \<Longrightarrow> unsummarised (snd out)"
    using ua by (cases rule: method_of_unsummarised [of _ "fst (specs ! k)" "snd (specs ! k)"])
      (auto simp add: o)
  show "fst out = Inl e \<Longrightarrow> unsummarised (snd out)"
    using ua by (cases rule: method_of_unsummarised [of _ "fst (specs ! k)" "snd (specs ! k)"])
      (auto simp add: o)
  show "fst out = Inr ''FLOW_COMPLETE'' \<Longrightarrow>
           \<exists>t. t \<noteq> [] \<and> map_of (state (snd out)) ''final_summary'' = Some (PStr t)"
    using ua by (cases rule: method_of_unsummarised [of _ "fst (specs ! k)" "snd (specs ! k)"])
      (auto simp add: o)
qed

lemma world_at_unsummarised:
  assumes u: "unsummarised w"
    and adv: "\<And>j. j < k \<Longrightarrow> result_at (agents_of specs env) w j = Inr ''NEXT_STATE''
                \<or> result_at (agents_of specs env) w j = Inr ''AWAIT_SELECTION''"
  shows "i \<le> k \<Longrightarrow> i \<le> length specs \<Longrightarrow> unsummarised (world_at (agents_of specs env) w i)"
proof (induction i)
  case 0
  show ?case using u by simp
next
  case (Suc i)
  then have ui: "unsummarised (world_at (agents_of specs env) w i)" and il: "i < length specs"
    and ik: "i < k" by simp_all
  from adv [OF ik] source_step(1) [OF ui il, of env] show ?case
    by (simp add: result_at_def)
qed

lemma run_loop_source_agents:
  assumes "unsummarised w" and "length specs - i \<le> fuel"
  shows "\<exists>h ex' w'. run_loop fuel (agents_of specs env) i ex w = Some (h, ex', w')
          \<and> (h = Flow_complete \<longrightarrow>
               (\<exists>t. t \<noteq> [] \<and> map_of (state w') ''final_summary'' = Some (PStr t)))
          \<and> (h \<noteq> Flow_complete \<longrightarrow> map_of (state w') ''final_summary'' = Some PNone)"
  using assms
proof (induction fuel arbitrary: i ex w)
  case 0
  then have "length (agents_of specs env) \<le> i" by simp
  then have "run_loop 0 (agents_of specs env) i ex w = Some (Sequence_end, ex, w)"
    by (rule run_loop_end)
  with unsummarised_no_summary [OF "0.prems"(1)] show ?case by simp
next
  case (Suc fuel)
  let ?agents = "agents_of specs env"
  show ?case
  proof (cases "i < length specs")
    case False
    then have "length ?agents \<le> i" by simp
    then have "run_loop (Suc fuel) ?agents i ex w = Some (Sequence_end, ex, w)"
      by (rule run_loop_end)
    with unsummarised_no_summary [OF Suc.prems(1)] show ?thesis by simp
  next
    case True
    define out where "out = execute (?agents ! i) (announce (?agents ! i) w)"
    have il: "i < length ?agents" using True by simp
    have turn: "run_loop (Suc fuel) ?agents i ex w =
        (case loop_body ?agents i w of
           Break h w' \<Rightarrow> Some (h, ex @ [i], w')
         | Next j w' \<Rightarrow> run_loop fuel ?agents j (ex @ [i]) w')"
      using il by (rule run_loop_turn)
    have body: "loop_body ?agents i w =
        (case out of
           (Inr result, w2) \<Rightarrow>
             if result = ''FLOW_COMPLETE'' then
               Break Flow_complete (emit logger INFO ''Flow successfully completed.'' w2)
             else if result = ''ERROR_STATE'' then
               Break Error_state
                 (emit logger ERROR
                    (''Flow stopped due to error in '' @ name (?agents ! i) @ ''.'') w2)
             else if result = ''NEXT_STATE'' \<or> result = ''AWAIT_SELECTION'' then Next (i + 1) w2
             else Next i w2
         | (Inl e, w2) \<Rightarrow>
             Break (Unhandled e)
               (emit logger CRITICAL
                  (''Unhandled exception in '' @ name (?agents ! i) @ '': '' @ exn_str e) w2))"
      unfolding out_def by (rule loop_body_cases)
    note step = source_step [OF Suc.prems(1) True, of env, folded out_def]
    have sig: "r \<in> set control_signals" if "fst out = Inr r" for r
      using that agents_of_signals [of "?agents ! i" specs env] il
      by (simp add: out_def)
    obtain res w2 where o: "out = (res, w2)" by (cases out)
    show ?thesis
    proof (cases res)
      case (Inl e)
      with o step(3) [of e] have "unsummarised w2" by simp
      from unsummarised_no_summary [OF this] o Inl turn body show ?thesis by simp
    next
      case (Inr r)
      with o sig [of r] consider "r = ''NEXT_STATE'' \<or> r = ''AWAIT_SELECTION''"
        | "r = ''ERROR_STATE''" | "r = ''FLOW_COMPLETE''"
        by (auto simp add: control_signals_def)
      then show ?thesis
      proof cases
        case 1
        with o Inr step(1) have u2: "unsummarised w2" by auto
        from 1 o Inr turn body
        have "run_loop (Suc fuel) ?agents i ex w = run_loop fuel ?agents (Suc i) (ex @ [i]) w2"
          by auto
        moreover from Suc.prems(2) have "length specs - Suc i \<le> fuel" by simp
        ultimately show ?thesis using Suc.IH [OF u2, of "Suc i" "ex @ [i]"] by simp
      next
        case 2
        with o Inr step(2) have "unsummarised w2" by simp
        from unsummarised_no_summary [OF this] 2 o Inr turn body show ?thesis by simp
      next
        case 3
        with o Inr step(4) obtain t where
          "t \<noteq> []" "map_of (state w2) ''final_summary'' = Some (PStr t)" by auto
        with 3 o Inr turn body show ?thesis by simp
      qed
    qed
  qed
qed

section \<open>Writing the state by name\<close>

text \<open>
  C1. The claim is that \<open>update_state\<close> writes only the eight state fields and rejects
  every other name without touching the state object. The code tests \<open>hasattr\<close>, which
  also holds for the method names of the class. On a fresh state the call
  \<open>update_state(update_state='x')\<close> therefore returns having stored \<open>'x'\<close> on the object
  under the method's name and logged no warning, and the next agent's call of
  \<open>self.state.update_state\<close> raises \<open>TypeError\<close>.
\<close>

theorem update_state_overwrites_method:
  "fst (update_state fresh_world [(''update_state'', PStr ''x'')]) = Inr ()
   \<and> map_of (state (snd (update_state fresh_world [(''update_state'', PStr ''x'')]))) ''update_state''
     = Some (PStr ''x'')
   \<and> log_records (snd (update_state fresh_world [(''update_state'', PStr ''x'')]))
     = [(''CareerBuilderHelper'', INFO, ''State updated: {'update_state': 'x'}'')]
   \<and> fst (InterestAgent_execute ''A1_InterestCapture''
            (snd (update_state fresh_world [(''update_state'', PStr ''x'')])))
     = Inl (TypeError '''str' object is not callable'')"
  by (simp add: fresh_world_def update_state_def update_entry_def hasattr_def setattr_def
      class_names_def map_of_dict_set emit_def logger_def py_repr_kwargs_def py_repr_items_def
      py_repr_str_def repr_char_def InterestAgent_execute_def call_update_state_def apos_def
      Let_def)

section \<open>Faults inside a step\<close>

text \<open>
  C2, as stated: no step's \<open>execute\<close> ever raises; \<open>SummaryAgent.execute\<close> returns a
  signal even when \<open>user_location\<close> is absent. On the fresh state, where
  \<open>user_location\<close> is \<open>None\<close>, \<open>SummaryAgent.execute\<close> raises \<open>TypeError\<close> and leaves
  the world as it was.
\<close>

theorem SummaryAgent_raises_on_fresh_state:
  "SummaryAgent_execute ''A7_Summary'' fresh_world
     = (Inl (TypeError '''NoneType' object is not subscriptable''), fresh_world)"
  by (simp add: SummaryAgent_execute_def compose_summary_def getattr_Some apos_def)

text \<open>
  C2, amended. Take a state that has its eight fields and whose \<open>update_state\<close> is still
  the method, with \<open>stream\<close> in \<open>target_stream\<close> and \<open>location\<close> in \<open>user_location\<close>. On
  it \<open>InterestAgent\<close>, \<open>StreamResearchAgent\<close>, \<open>LocationAgent\<close>, \<open>CriteriaAgent\<close> and
  \<open>ReviewerAgent\<close> return one of the four control signals. \<open>CollegeResearchAgent\<close> does
  so exactly when \<open>stream\<close> or \<open>location\<close> is empty or \<open>location\<close> can be read at
  \<open>'city'\<close> and \<open>'state'\<close>; \<open>SummaryAgent\<close> does so exactly when \<open>location\<close> can be read
  at both keys. When one of these two does not return a signal it raises, and state
  and log are as they were.
\<close>

theorem steps_return_unless_location_unreadable:
  assumes "intact w"
    and "map_of (state w) ''target_stream'' = Some stream"
    and "map_of (state w) ''user_location'' = Some location"
  shows "returns_signal (InterestAgent_execute nm w)
       \<and> returns_signal (StreamResearchAgent_execute nm w)
       \<and> returns_signal (LocationAgent_execute nm w)
       \<and> returns_signal (CriteriaAgent_execute nm w)
       \<and> returns_signal (ReviewerAgent_execute nm w)
       \<and> (returns_signal (CollegeResearchAgent_execute nm w) \<longleftrightarrow>
            \<not> truthy stream \<or> \<not> truthy location \<or> has_city_state location)
       \<and> (returns_signal (SummaryAgent_execute nm w) \<longleftrightarrow> has_city_state location)
       \<and> (\<not> returns_signal (CollegeResearchAgent_execute nm w) \<longrightarrow>
            (\<exists>e. CollegeResearchAgent_execute nm w = (Inl e, w)))
       \<and> (\<not> returns_signal (SummaryAgent_execute nm w) \<longrightarrow>
            (\<exists>e. SummaryAgent_execute nm w = (Inl e, w)))"
proof -
  note i = assms(1)
  have a1: "returns_signal (InterestAgent_execute nm w)"
    using InterestAgent_intact(1) [OF i] by (simp add: returns_signal_def control_signals_def)
  have a2: "returns_signal (StreamResearchAgent_execute nm w)"
  proof -
    from intact_field [OF i, of "''interest_area''"] obtain v where
      v: "map_of (state w) ''interest_area'' = Some v" by auto
    show ?thesis
    proof (cases "truthy v")
      case True
      with StreamResearchAgent_intact(1) [OF i v] show ?thesis
        by (simp add: returns_signal_def control_signals_def)
    next
      case False
      from StreamResearchAgent_missing [OF v False] show ?thesis
        by (simp add: returns_signal_def control_signals_def)
    qed
  qed
  have a3: "returns_signal (LocationAgent_execute nm w)"
    using LocationAgent_intact(1) [OF i] by (simp add: returns_signal_def control_signals_def)
  have a5: "returns_signal (CriteriaAgent_execute nm w)"
  proof -
    from intact_field [OF i, of "''college_results''"] obtain c where
      c: "map_of (state w) ''college_results'' = Some c" by auto
    show ?thesis
    proof (cases "truthy c \<and> truthy stream")
      case True
      with CriteriaAgent_intact(1) [OF i c assms(2)] show ?thesis
        by (simp add: returns_signal_def control_signals_def)
    next
      case False
      then have "\<not> truthy c \<or> \<not> truthy stream" by simp
      from CriteriaAgent_missing [OF c assms(2) this] show ?thesis
        by (simp add: returns_signal_def control_signals_def)
    qed
  qed
  have a6: "returns_signal (ReviewerAgent_execute nm w)"
    using ReviewerAgent_intact(1) [OF i] by (simp add: returns_signal_def control_signals_def)
  have a4: "(returns_signal (CollegeResearchAgent_execute nm w) \<longleftrightarrow>
              \<not> truthy stream \<or> \<not> truthy location \<or> has_city_state location)
            \<and> (\<not> returns_signal (CollegeResearchAgent_execute nm w) \<longrightarrow>
                 (\<exists>e. CollegeResearchAgent_execute nm w = (Inl e, w)))"
  proof (cases "\<not> truthy stream \<or> \<not> truthy location")
    case True
    from CollegeResearchAgent_missing [OF assms(2,3) this, of nm] True show ?thesis
      by (auto simp add: returns_signal_def control_signals_def)
  next
    case False
    then have t: "truthy stream" "truthy location" by simp_all
    show ?thesis
    proof (cases "has_city_state location")
      case True
      with CollegeResearchAgent_intact(1) [OF i assms(2,3) t(1) True] show ?thesis
        by (simp add: returns_signal_def control_signals_def)
    next
      case False
      from CollegeResearchAgent_raises [OF assms(2,3) t False] obtain e where
        "CollegeResearchAgent_execute nm w = (Inl e, w)" by blast
      with False t show ?thesis by (simp add: returns_signal_def)
    qed
  qed
  have a7: "(returns_signal (SummaryAgent_execute nm w) \<longleftrightarrow> has_city_state location)
            \<and> (\<not> returns_signal (SummaryAgent_execute nm w) \<longrightarrow>
                 (\<exists>e. SummaryAgent_execute nm w = (Inl e, w)))"
  proof (cases "has_city_state location")
    case True
    from compose_summary_intact [OF i assms(3) True] obtain t where
      "compose_summary (state w) = Inr t" by blast
    from SummaryAgent_intact(1) [OF i this] True show ?thesis
      by (simp add: returns_signal_def control_signals_def)
  next
    case False
    from compose_summary_raises [OF i assms(3) False] obtain e where
      "compose_summary (state w) = Inl e" by blast
    from SummaryAgent_raises [OF this] False show ?thesis
      by (auto simp add: returns_signal_def)
  qed
  from a1 a2 a3 a4 a5 a6 a7 show ?thesis by blast
qed

text \<open>The amended C2 on the fresh state, where \<open>user_location\<close> is \<open>None\<close>.\<close>

theorem steps_return_unless_location_unreadable_witness:
  "intact fresh_world
   \<and> map_of (state fresh_world) ''target_stream'' = Some PNone
   \<and> map_of (state fresh_world) ''user_location'' = Some PNone
   \<and> returns_signal (InterestAgent_execute ''A1_InterestCapture'' fresh_world)
   \<and> returns_signal (ReviewerAgent_execute ''A1_InterestCapture'' fresh_world)
   \<and> returns_signal (CollegeResearchAgent_execute ''A1_InterestCapture'' fresh_world)
   \<and> \<not> returns_signal (SummaryAgent_execute ''A1_InterestCapture'' fresh_world)"
proof -
  have h: "intact fresh_world"
    and t: "map_of (state fresh_world) ''target_stream'' = Some PNone"
    and l: "map_of (state fresh_world) ''user_location'' = Some PNone"
    by simp_all
  show ?thesis
    using h t l steps_return_unless_location_unreadable [OF h t l, of "''A1_InterestCapture''"]
    by simp
qed

section \<open>Validation of required fields\<close>

text \<open>
  C3, as stated: each of the seven agents first checks the fields it depends on and,
  when one is absent, writes nothing, logs the deficiency and returns the error signal.
  On the fresh state every field \<open>ReviewerAgent\<close> reads is \<open>None\<close>, and yet it writes
  \<open>reviewer_notes\<close> and returns \<open>NEXT_STATE\<close>.
\<close>

theorem ReviewerAgent_writes_without_inputs:
  "fst (ReviewerAgent_execute ''A6_Reviewer'' fresh_world) = Inr ''NEXT_STATE''
   \<and> map_of (state (snd (ReviewerAgent_execute ''A6_Reviewer'' fresh_world))) ''reviewer_notes''
       = Some (PStr mock_review_notes)
   \<and> map_of (state fresh_world) ''interest_area'' = Some PNone
   \<and> map_of (state fresh_world) ''criteria_details'' = Some PNone"
proof -
  have h: "intact fresh_world" by simp
  show ?thesis
    by (simp add: ReviewerAgent_intact [OF h] map_of_dict_set)
qed

text \<open>
  C3, amended. \<open>StreamResearchAgent\<close> (for \<open>interest_area\<close>), \<open>CollegeResearchAgent\<close> (for
  \<open>target_stream\<close> and \<open>user_location\<close>) and \<open>CriteriaAgent\<close> (for \<open>college_results\<close> and
  \<open>target_stream\<close>) check their fields first: when the fields are there and one of them
  holds \<open>None\<close> or an empty value, the agent returns \<open>ERROR_STATE\<close> and the world differs
  from the one before only by the error record in the log. \<open>LocationAgent\<close> and
  \<open>ReviewerAgent\<close> check nothing: on every state that has its eight fields and whose
  \<open>update_state\<close> is still the method they write their fields and return \<open>NEXT_STATE\<close>,
  whatever the fields hold.
\<close>

theorem validation_where_present:
  "(map_of (state w) ''interest_area'' = Some interest \<and> \<not> truthy interest \<longrightarrow>
      StreamResearchAgent_execute nm w =
        (Inr ''ERROR_STATE'',
         emit (agent_logger nm) ERROR ''Interest area missing. Cannot research streams.'' w))
   \<and> (map_of (state w) ''target_stream'' = Some stream
       \<and> map_of (state w) ''user_location'' = Some location
       \<and> (\<not> truthy stream \<or> \<not> truthy location) \<longrightarrow>
      CollegeResearchAgent_execute nm w =
        (Inr ''ERROR_STATE'',
         emit (agent_logger nm) ERROR ''Stream or Location missing. Cannot research colleges.'' w))
   \<and> (map_of (state w) ''college_results'' = Some colleges
       \<and> map_of (state w) ''target_stream'' = Some stream
       \<and> (\<not> truthy colleges \<or> \<not> truthy stream) \<longrightarrow>
      CriteriaAgent_execute nm w =
        (Inr ''ERROR_STATE'',
         emit (agent_logger nm) ERROR ''College results missing. Cannot find criteria.'' w))
   \<and> (intact w \<longrightarrow>
        fst (LocationAgent_execute nm w) = Inr ''NEXT_STATE''
        \<and> state (snd (LocationAgent_execute nm w))
            = dict_set ''target_stream'' (PStr mock_selection)
                (dict_set ''user_location'' (PDict mock_location) (state w))
        \<and> fst (ReviewerAgent_execute nm w) = Inr ''NEXT_STATE''
        \<and> state (snd (ReviewerAgent_execute nm w))
            = dict_set ''reviewer_notes'' (PStr mock_review_notes) (state w))"
  using StreamResearchAgent_missing [of w interest nm]
    CollegeResearchAgent_missing [of w stream location nm]
    CriteriaAgent_missing [of w colleges stream nm]
    LocationAgent_intact [of w nm] ReviewerAgent_intact [of w nm]
  by blast

text \<open>The amended C3 on the fresh state, where every field is \<open>None\<close>.\<close>

theorem validation_where_present_witness:
  "map_of (state fresh_world) ''interest_area'' = Some PNone \<and> \<not> truthy PNone
   \<and> StreamResearchAgent_execute ''A2_StreamResearch'' fresh_world =
        (Inr ''ERROR_STATE'',
         emit ''ADK.A2_StreamResearch'' ERROR ''Interest area missing. Cannot research streams.''
           fresh_world)
   \<and> state (snd (StreamResearchAgent_execute ''A2_StreamResearch'' fresh_world)) = state fresh_world
   \<and> map_of (state fresh_world) ''target_stream'' = Some PNone
   \<and> map_of (state fresh_world) ''user_location'' = Some PNone
   \<and> fst (CollegeResearchAgent_execute ''A2_StreamResearch'' fresh_world) = Inr ''ERROR_STATE''
   \<and> map_of (state fresh_world) ''college_results'' = Some PNone
   \<and> fst (CriteriaAgent_execute ''A2_StreamResearch'' fresh_world) = Inr ''ERROR_STATE''
   \<and> intact fresh_world
   \<and> fst (LocationAgent_execute ''A2_StreamResearch'' fresh_world) = Inr ''NEXT_STATE''
   \<and> fst (ReviewerAgent_execute ''A2_StreamResearch'' fresh_world) = Inr ''NEXT_STATE''"
proof -
  have h: "intact fresh_world" by simp
  have f: "map_of (state fresh_world) ''interest_area'' = Some PNone"
    "map_of (state fresh_world) ''target_stream'' = Some PNone"
    "map_of (state fresh_world) ''user_location'' = Some PNone"
    "map_of (state fresh_world) ''college_results'' = Some PNone"
    by simp_all
  show ?thesis
    using h f validation_where_present
      [of fresh_world PNone "''A2_StreamResearch''" PNone PNone PNone]
    by (simp add: agent_logger_def)
qed

section \<open>Termination of the loop\<close>

text \<open>
  C4. When every step returns one of the four control signals (or raises), the loop
  ends after at most as many calls of \<open>execute\<close> as the sequence has steps: given that
  much fuel it returns, and the indices executed are \<open>0, 1, \<dots>, n - 1\<close> for some
  \<open>n\<close> up to the length, each step once and in increasing order.
\<close>

theorem loop_terminates_within_length:
  assumes "\<And>a w r. a \<in> set agents \<Longrightarrow> fst (execute a w) = Inr r \<Longrightarrow> r \<in> set control_signals"
    and "length agents \<le> fuel"
  shows "\<exists>h n w'. run_loop fuel agents 0 [] w = Some (h, [0..<n], w') \<and> n \<le> length agents"
proof -
  from assms(2) have "length agents - 0 \<le> fuel" by simp
  from run_loop_bounded [of agents 0 fuel "[]" w, OF assms(1) _ this]
  show ?thesis by auto
qed

text \<open>C4 on the seven agents of the source, for which the hypothesis holds.\<close>

theorem loop_terminates_within_length_witness:
  "length (agent_sequence []) \<le> 7
   \<and> (\<exists>h n w'. run_loop 7 (agent_sequence []) 0 [] fresh_world = Some (h, [0..<n], w')
        \<and> n \<le> length (agent_sequence []))"
proof -
  have len: "length (agent_sequence []) \<le> 7" by simp
  have "\<exists>h n w'. run_loop 7 (agent_sequence []) 0 [] fresh_world = Some (h, [0..<n], w')
        \<and> n \<le> length (agent_sequence [])"
  proof (rule loop_terminates_within_length)
    fix a w r
    assume "a \<in> set (agent_sequence [])" "fst (execute a w) = Inr r"
    then show "r \<in> set control_signals" by (rule agent_sequence_signals)
  next
    show "length (agent_sequence []) \<le> 7" by (rule len)
  qed
  with len show ?thesis by blast
qed

section \<open>Halting on a step's signal\<close>

text \<open>
  C5. When, run in order from the start, the steps before index \<open>k\<close> each return
  \<open>NEXT_STATE\<close> or \<open>AWAIT_SELECTION\<close> and the step at \<open>k\<close> returns \<open>ERROR_STATE\<close>, the
  loop executes the steps \<open>0\<close> to \<open>k\<close>, each once and in order, and no other; it leaves
  by the \<open>break\<close> of the error branch (the spec's \<open>HALTED_ERROR\<close>), having logged the
  error, in the world step \<open>k\<close> left.
\<close>

theorem halt_on_error:
  assumes "\<And>j. j < k \<Longrightarrow>
             result_at agents w j = Inr ''NEXT_STATE'' \<or> result_at agents w j = Inr ''AWAIT_SELECTION''"
    and "result_at agents w k = Inr ''ERROR_STATE''"
    and "k < length agents" and "k < fuel"
  shows "run_loop fuel agents 0 [] w =
           Some (Error_state, [0..<Suc k],
                 emit logger ERROR (''Flow stopped due to error in '' @ name (agents ! k) @ ''.'')
                   (world_at agents w (Suc k)))"
  using assms by (rule run_loop_error_break)

text \<open>
  C5 on three agents from a fresh state: \<open>InterestAgent\<close> advances, \<open>CriteriaAgent\<close>
  finds no college results and returns \<open>ERROR_STATE\<close>, the third agent is not executed.
\<close>

theorem halt_on_error_witness:
  "result_at [new_agent InterestAgent ''A1'' [], new_agent CriteriaAgent ''A5'' [],
              new_agent ReviewerAgent ''A6'' []] fresh_world 0 = Inr ''NEXT_STATE''
   \<and> result_at [new_agent InterestAgent ''A1'' [], new_agent CriteriaAgent ''A5'' [],
                new_agent ReviewerAgent ''A6'' []] fresh_world (Suc 0) = Inr ''ERROR_STATE''
   \<and> (\<exists>w'. run_loop 3 [new_agent InterestAgent ''A1'' [], new_agent CriteriaAgent ''A5'' [],
                         new_agent ReviewerAgent ''A6'' []] 0 [] fresh_world
             = Some (Error_state, [0, Suc 0], w'))"
proof -
  define agents where
    "agents = [new_agent InterestAgent ''A1'' [], new_agent CriteriaAgent ''A5'' [],
               new_agent ReviewerAgent ''A6'' []]"
  have a0: "intact (announce (agents ! 0) fresh_world)" by simp
  have r0: "result_at agents fresh_world 0 = Inr ''NEXT_STATE''"
    using InterestAgent_intact(1) [OF a0, of "''A1''"] by (simp add: result_at_def agents_def)
  have s1: "state (world_at agents fresh_world (Suc 0))
              = dict_set ''interest_area'' (PStr mock_interest) CareerState_init"
    using InterestAgent_intact(2) [OF a0, of "''A1''"] by (simp add: agents_def)
  have c: "map_of (state (announce (agents ! Suc 0) (world_at agents fresh_world (Suc 0))))
             ''college_results'' = Some PNone"
    and t: "map_of (state (announce (agents ! Suc 0) (world_at agents fresh_world (Suc 0))))
             ''target_stream'' = Some PNone"
    by (simp_all del: world_at.simps add: s1 map_of_dict_set)
  have r1: "result_at agents fresh_world (Suc 0) = Inr ''ERROR_STATE''"
    using CriteriaAgent_missing [OF c t, of "''A5''"]
    by (simp del: world_at.simps add: result_at_def agents_def)
  have adv: "result_at agents fresh_world j = Inr ''NEXT_STATE''
             \<or> result_at agents fresh_world j = Inr ''AWAIT_SELECTION''" if "j < Suc 0" for j
    using that r0 by simp
  have "run_loop 3 agents 0 [] fresh_world =
          Some (Error_state, [0..<Suc (Suc 0)],
                emit logger ERROR (''Flow stopped due to error in '' @ name (agents ! Suc 0) @ ''.'')
                  (world_at agents fresh_world (Suc (Suc 0))))"
    by (rule halt_on_error [OF adv r1]) (simp_all add: agents_def)
  moreover have "[0..<Suc (Suc 0)] = [0, Suc 0]" by (simp add: upt_conv_Cons)
  ultimately have "\<exists>w'. run_loop 3 agents 0 [] fresh_world = Some (Error_state, [0, Suc 0], w')"
    by simp
  with r0 r1 show ?thesis unfolding agents_def by blast
qed

text \<open>
  C6. When, run in order from the start, the steps before index \<open>k\<close> each return
  \<open>NEXT_STATE\<close> or \<open>AWAIT_SELECTION\<close> and the step at \<open>k\<close> returns \<open>FLOW_COMPLETE\<close>, the
  loop executes the steps \<open>0\<close> to \<open>k\<close> and stops there by the \<open>break\<close> of the completion
  branch (the spec's \<open>HALTED_SUCCESS\<close>), however many steps follow \<open>k\<close> in the sequence.
\<close>

theorem halt_on_complete:
  assumes "\<And>j. j < k \<Longrightarrow>
             result_at agents w j = Inr ''NEXT_STATE'' \<or> result_at agents w j = Inr ''AWAIT_SELECTION''"
    and "result_at agents w k = Inr ''FLOW_COMPLETE''"
    and "k < length agents" and "k < fuel"
  shows "run_loop fuel agents 0 [] w =
           Some (Flow_complete, [0..<Suc k],
                 emit logger INFO ''Flow successfully completed.'' (world_at agents w (Suc k)))"
  using assms by (rule run_loop_complete_break)

text \<open>
  C6 on three agents from a fresh state: \<open>LocationAgent\<close> advances, \<open>SummaryAgent\<close>
  completes the flow, and the agent after it is not executed.
\<close>

theorem halt_on_complete_witness:
  "result_at [new_agent LocationAgent ''A3'' [], new_agent SummaryAgent ''A7'' [],
              new_agent InterestAgent ''A1'' []] fresh_world 0 = Inr ''NEXT_STATE''
   \<and> result_at [new_agent LocationAgent ''A3'' [], new_agent SummaryAgent ''A7'' [],
                new_agent InterestAgent ''A1'' []] fresh_world (Suc 0) = Inr ''FLOW_COMPLETE''
   \<and> (\<exists>w'. run_loop 3 [new_agent LocationAgent ''A3'' [], new_agent SummaryAgent ''A7'' [],
                         new_agent InterestAgent ''A1'' []] 0 [] fresh_world
             = Some (Flow_complete, [0, Suc 0], w'))"
proof -
  define agents where
    "agents = [new_agent LocationAgent ''A3'' [], new_agent SummaryAgent ''A7'' [],
               new_agent InterestAgent ''A1'' []]"
  have a0: "intact (announce (agents ! 0) fresh_world)" by simp
  have r0: "result_at agents fresh_world 0 = Inr ''NEXT_STATE''"
    using LocationAgent_intact(1) [OF a0, of "''A3''"] by (simp add: result_at_def agents_def)
  have s1: "state (world_at agents fresh_world (Suc 0))
              = dict_set ''target_stream'' (PStr mock_selection)
                  (dict_set ''user_location'' (PDict mock_location) CareerState_init)"
    using LocationAgent_intact(2) [OF a0, of "''A3''"] by (simp add: agents_def)
  have i1: "intact (world_at agents fresh_world (Suc 0))"
    unfolding intact_def method_intact_def s1
    by (simp add: has_fields_dict_set map_of_dict_set)
  then have a1: "intact (announce (agents ! Suc 0) (world_at agents fresh_world (Suc 0)))"
    by (simp del: world_at.simps)
  have l: "map_of (state (announce (agents ! Suc 0) (world_at agents fresh_world (Suc 0))))
             ''user_location'' = Some (PDict mock_location)"
    by (simp del: world_at.simps add: s1 map_of_dict_set)
  have "has_city_state (PDict mock_location)" by (simp add: mock_location_def)
  from compose_summary_intact [OF a1 l this] obtain t where
    "compose_summary (state (announce (agents ! Suc 0) (world_at agents fresh_world (Suc 0)))) = Inr t"
    by blast
  from SummaryAgent_intact(1) [OF a1 this, of "''A7''"]
  have r1: "result_at agents fresh_world (Suc 0) = Inr ''FLOW_COMPLETE''"
    by (simp del: world_at.simps add: result_at_def agents_def)
  have adv: "result_at agents fresh_world j = Inr ''NEXT_STATE''
             \<or> result_at agents fresh_world j = Inr ''AWAIT_SELECTION''" if "j < Suc 0" for j
    using that r0 by simp
  have "run_loop 3 agents 0 [] fresh_world =
          Some (Flow_complete, [0..<Suc (Suc 0)],
                emit logger INFO ''Flow successfully completed.''
                  (world_at agents fresh_world (Suc (Suc 0))))"
    by (rule halt_on_complete [OF adv r1]) (simp_all add: agents_def)
  moreover have "[0..<Suc (Suc 0)] = [0, Suc 0]" by (simp add: upt_conv_Cons)
  ultimately have "\<exists>w'. run_loop 3 agents 0 [] fresh_world = Some (Flow_complete, [0, Suc 0], w')"
    by simp
  with r0 r1 show ?thesis unfolding agents_def by blast
qed

section \<open>What the caller of the flow observes\<close>

text \<open>
  C7. The flow is run from a fresh state, as the entry point runs it, over any sequence
  of agents of the source's classes (the entry point's own sequence is one), with fuel
  for one call per agent.

  \<^item> The flow returns and the \<open>print\<close> at its end does not raise, so no fault leaves
    it; the text printed is either the notice \<open>Flow aborted. Check logs for details.\<close>
    or the non-empty text that \<open>final_summary\<close> holds.
  \<^item> When the steps before index \<open>k\<close> let the loop go on and the step at \<open>k\<close> raises
    \<open>e\<close>, the fault is caught: the flow returns, the loop was left by the \<open>except\<close>
    clause with the steps \<open>0\<close> to \<open>k\<close> executed and no other, the last log record is
    the \<open>CRITICAL\<close> one that names the agent at \<open>k\<close> and \<open>e\<close>, and the notice is printed.
  \<^item> When the step at \<open>k\<close> returns \<open>ERROR_STATE\<close> instead, the loop was left by the
    error \<open>break\<close> after the steps \<open>0\<close> to \<open>k\<close>, and the notice is printed.
  \<^item> When the step at \<open>k\<close> returns \<open>FLOW_COMPLETE\<close>, the loop was left by the
    completion \<open>break\<close> after the steps \<open>0\<close> to \<open>k\<close>, and the summary that step wrote is
    printed.
\<close>

theorem flow_ends_in_summary_or_notice:
  assumes "length specs \<le> fuel"
  shows
    "(\<exists>h ex w' text.
        run_flow fuel (agents_of specs env) \<lparr>state = CareerState_init, log_records = lg\<rparr>
          = Some (h, ex, w', Inr text)
        \<and> (text = abort_notice @ nl
             \<or> (\<exists>t. t \<noteq> [] \<and> map_of (state w') ''final_summary'' = Some (PStr t)
                      \<and> text = t @ nl)))
     \<and> (\<forall>k e.
          k < length specs
          \<and> (\<forall>j<k. result_at (agents_of specs env)
                        (started \<lparr>state = CareerState_init, log_records = lg\<rparr>) j
                        = Inr ''NEXT_STATE''
                    \<or> result_at (agents_of specs env)
                        (started \<lparr>state = CareerState_init, log_records = lg\<rparr>) j
                        = Inr ''AWAIT_SELECTION'')
          \<and> result_at (agents_of specs env)
                (started \<lparr>state = CareerState_init, log_records = lg\<rparr>) k = Inl e
          \<longrightarrow>
          run_flow fuel (agents_of specs env) \<lparr>state = CareerState_init, log_records = lg\<rparr>
            = Some (Unhandled e, [0..<Suc k],
                    emit logger CRITICAL
                      (''Unhandled exception in '' @ snd (specs ! k) @ '': '' @ exn_str e)
                      (world_at (agents_of specs env)
                         (started \<lparr>state = CareerState_init, log_records = lg\<rparr>) (Suc k)),
                    Inr (abort_notice @ nl)))
     \<and> (\<forall>k.
          k < length specs
          \<and> (\<forall>j<k. result_at (agents_of specs env)
                        (started \<lparr>state = CareerState_init, log_records = lg\<rparr>) j
                        = Inr ''NEXT_STATE''
                    \<or> result_at (agents_of specs env)
                        (started \<lparr>state = CareerState_init, log_records = lg\<rparr>) j
                        = Inr ''AWAIT_SELECTION'')
          \<and> result_at (agents_of specs env)
                (started \<lparr>state = CareerState_init, log_records = lg\<rparr>) k
                = Inr ''ERROR_STATE''
          \<longrightarrow>
          run_flow fuel (agents_of specs env) \<lparr>state = CareerState_init, log_records = lg\<rparr>
            = Some (Error_state, [0..<Suc k],
                    emit logger ERROR
                      (''Flow stopped due to error in '' @ snd (specs ! k) @ ''.'')
                      (world_at (agents_of specs env)
                         (started \<lparr>state = CareerState_init, log_records = lg\<rparr>) (Suc k)),
                    Inr (abort_notice @ nl)))
     \<and> (\<forall>k.
          k < length specs
          \<and> (\<forall>j<k. result_at (agents_of specs env)
                        (started \<lparr>state = CareerState_init, log_records = lg\<rparr>) j
                        = Inr ''NEXT_STATE''
                    \<or> result_at (agents_of specs env)
                        (started \<lparr>state = CareerState_init, log_records = lg\<rparr>) j
                        = Inr ''AWAIT_SELECTION'')
          \<and> result_at (agents_of specs env)
                (started \<lparr>state = CareerState_init, log_records = lg\<rparr>) k
                = Inr ''FLOW_COMPLETE''
          \<longrightarrow>
          (\<exists>t. t \<noteq> []
             \<and> map_of (state (world_at (agents_of specs env)
                          (started \<lparr>state = CareerState_init, log_records = lg\<rparr>) (Suc k)))
                  ''final_summary'' = Some (PStr t)
             \<and> run_flow fuel (agents_of specs env)
                  \<lparr>state = CareerState_init, log_records = lg\<rparr>
                 = Some (Flow_complete, [0..<Suc k],
                         emit logger INFO ''Flow successfully completed.''
                           (world_at (agents_of specs env)
                              (started \<lparr>state = CareerState_init, log_records = lg\<rparr>)
                              (Suc k)),
                         Inr (t @ nl))))"
proof -
  define agents where "agents = agents_of specs env"
  define w0 where "w0 = \<lparr>state = CareerState_init, log_records = lg\<rparr>"
  define w1 where "w1 = started w0"
  have u: "unsummarised w1"
    unfolding w1_def by (rule unsummarised_started) (simp add: w0_def)
  have flow: "run_flow fuel agents w0 = Some (h, ex, w', printed (state w'))"
    if "run_loop fuel agents 0 [] w1 = Some (h, ex, w')" for h ex w'
    using that by (simp add: run_flow_def w1_def)
  have nm: "name (agents ! k) = snd (specs ! k)" if "k < length specs" for k
    using that by (simp add: agents_def agents_of_nth)
  \<comment> \<open>the flow returns and prints one of the two texts\<close>
  have total: "\<exists>h ex w' text.
        run_flow fuel agents w0 = Some (h, ex, w', Inr text)
        \<and> (text = abort_notice @ nl
             \<or> (\<exists>t. t \<noteq> [] \<and> map_of (state w') ''final_summary'' = Some (PStr t)
                      \<and> text = t @ nl))"
  proof -
    from assms have f: "length specs - 0 \<le> fuel" by simp
    from run_loop_source_agents [OF u f, of env "[]"] obtain h ex w' where
      r: "run_loop fuel agents 0 [] w1 = Some (h, ex, w')"
      and c: "h = Flow_complete \<longrightarrow>
                (\<exists>t. t \<noteq> [] \<and> map_of (state w') ''final_summary'' = Some (PStr t))"
      and n: "h \<noteq> Flow_complete \<longrightarrow> map_of (state w') ''final_summary'' = Some PNone"
      unfolding agents_def by blast
    show ?thesis
    proof (cases "h = Flow_complete")
      case True
      with c obtain t where t: "t \<noteq> []" "map_of (state w') ''final_summary'' = Some (PStr t)"
        by blast
      from flow [OF r] printed_summary [OF t(2) t(1)] t show ?thesis by auto
    next
      case False
      with n have "map_of (state w') ''final_summary'' = Some PNone" by simp
      from flow [OF r] printed_abort [OF this] show ?thesis by auto
    qed
  qed
  \<comment> \<open>the world before step \<open>k\<close> has no summary\<close>
  have before: "unsummarised (world_at agents w1 k)"
    if "k < length specs"
      and "\<forall>j<k. result_at agents w1 j = Inr ''NEXT_STATE''
                 \<or> result_at agents w1 j = Inr ''AWAIT_SELECTION''" for k
    unfolding agents_def
    by (rule world_at_unsummarised [OF u, of k]) (use that in \<open>simp_all add: agents_def\<close>)
  have raised: "run_flow fuel agents w0
            = Some (Unhandled e, [0..<Suc k],
                    emit logger CRITICAL
                      (''Unhandled exception in '' @ snd (specs ! k) @ '': '' @ exn_str e)
                      (world_at agents w1 (Suc k)),
                    Inr (abort_notice @ nl))"
    if k: "k < length specs"
      and adv: "\<forall>j<k. result_at agents w1 j = Inr ''NEXT_STATE''
                 \<or> result_at agents w1 j = Inr ''AWAIT_SELECTION''"
      and res: "result_at agents w1 k = Inl e" for k e
  proof -
    from k assms have kl: "k < length agents" and kf: "k < fuel" by (simp_all add: agents_def)
    from adv have adv': "\<And>j. j < k \<Longrightarrow> result_at agents w1 j = Inr ''NEXT_STATE''
                 \<or> result_at agents w1 j = Inr ''AWAIT_SELECTION''" by blast
    from source_step(3) [OF before [OF k adv] k, of env e] res
    have "unsummarised (world_at agents w1 (Suc k))"
      by (simp add: result_at_def agents_def)
    then have p: "printed (state (world_at agents w1 (Suc k))) = Inr (abort_notice @ nl)"
      by (intro printed_abort unsummarised_no_summary)
    from flow [OF run_loop_exception_break [OF adv' res kl kf]] p nm [OF k]
    show ?thesis by (simp del: world_at.simps)
  qed
  have stopped: "run_flow fuel agents w0
            = Some (Error_state, [0..<Suc k],
                    emit logger ERROR
                      (''Flow stopped due to error in '' @ snd (specs ! k) @ ''.'')
                      (world_at agents w1 (Suc k)),
                    Inr (abort_notice @ nl))"
    if k: "k < length specs"
      and adv: "\<forall>j<k. result_at agents w1 j = Inr ''NEXT_STATE''
                 \<or> result_at agents w1 j = Inr ''AWAIT_SELECTION''"
      and res: "result_at agents w1 k = Inr ''ERROR_STATE''" for k
  proof -
    from k assms have kl: "k < length agents" and kf: "k < fuel" by (simp_all add: agents_def)
    from adv have adv': "\<And>j. j < k \<Longrightarrow> result_at agents w1 j = Inr ''NEXT_STATE''
                 \<or> result_at agents w1 j = Inr ''AWAIT_SELECTION''" by blast
    from source_step(2) [OF before [OF k adv] k, of env] res
    have "unsummarised (world_at agents w1 (Suc k))"
      by (simp add: result_at_def agents_def)
    then have p: "printed (state (world_at agents w1 (Suc k))) = Inr (abort_notice @ nl)"
      by (intro printed_abort unsummarised_no_summary)
    from flow [OF run_loop_error_break [OF adv' res kl kf]] p nm [OF k]
    show ?thesis by (simp del: world_at.simps)
  qed
  have completed: "\<exists>t. t \<noteq> []
             \<and> map_of (state (world_at agents w1 (Suc k))) ''final_summary'' = Some (PStr t)
             \<and> run_flow fuel agents w0
                 = Some (Flow_complete, [0..<Suc k],
                         emit logger INFO ''Flow successfully completed.''
                           (world_at agents w1 (Suc k)),
                         Inr (t @ nl))"
    if k: "k < length specs"
      and adv: "\<forall>j<k. result_at agents w1 j = Inr ''NEXT_STATE''
                 \<or> result_at agents w1 j = Inr ''AWAIT_SELECTION''"
      and res: "result_at agents w1 k = Inr ''FLOW_COMPLETE''" for k
  proof -
    from k assms have kl: "k < length agents" and kf: "k < fuel" by (simp_all add: agents_def)
    from adv have adv': "\<And>j. j < k \<Longrightarrow> result_at agents w1 j = Inr ''NEXT_STATE''
                 \<or> result_at agents w1 j = Inr ''AWAIT_SELECTION''" by blast
    from source_step(4) [OF before [OF k adv] k, of env] res
    obtain t where t: "t \<noteq> []"
      "map_of (state (world_at agents w1 (Suc k))) ''final_summary'' = Some (PStr t)"
      by (auto simp add: result_at_def agents_def)
    from printed_summary [OF t(2) t(1)]
    have p: "printed (state (world_at agents w1 (Suc k))) = Inr (t @ nl)" .
    from flow [OF run_loop_complete_break [OF adv' res kl kf]] p
    have "run_flow fuel agents w0
            = Some (Flow_complete, [0..<Suc k],
                    emit logger INFO ''Flow successfully completed.''
                      (world_at agents w1 (Suc k)),
                    Inr (t @ nl))"
      by (simp del: world_at.simps)
    with t show ?thesis by blast
  qed
  from total raised stopped completed show ?thesis
    unfolding agents_def w1_def w0_def by blast
qed

text \<open>
  C7 on a sequence that starts with \<open>SummaryAgent\<close>: on the fresh state it raises
  \<open>TypeError\<close>, which the loop catches and logs; the notice is printed and the second
  agent is not executed.
\<close>

theorem flow_ends_in_summary_or_notice_witness:
  "length [(SummaryAgent, ''A7_Summary''), (InterestAgent, ''A1_InterestCapture'')] \<le> 2
   \<and> result_at (agents_of [(SummaryAgent, ''A7_Summary''),
                            (InterestAgent, ''A1_InterestCapture'')] [])
         (started \<lparr>state = CareerState_init, log_records = []\<rparr>) 0
       = Inl (TypeError '''NoneType' object is not subscriptable'')
   \<and> run_flow 2 (agents_of [(SummaryAgent, ''A7_Summary''),
                            (InterestAgent, ''A1_InterestCapture'')] [])
         \<lparr>state = CareerState_init, log_records = []\<rparr>
       = Some (Unhandled (TypeError '''NoneType' object is not subscriptable''), [0],
               \<lparr>state = CareerState_init,
                log_records =
                  [(''CareerBuilderHelper'', INFO, ''Starting Career Builder Helper Agentic Flow...''),
                   (''CareerBuilderHelper'', INFO, nl @ ''--- Executing Agent: A7_Summary ---''),
                   (''CareerBuilderHelper'', CRITICAL,
                    ''Unhandled exception in A7_Summary: 'NoneType' object is not subscriptable'')]\<rparr>,
               Inr (abort_notice @ nl))"
proof -
  let ?specs = "[(SummaryAgent, ''A7_Summary''), (InterestAgent, ''A1_InterestCapture'')]"
  let ?e = "TypeError '''NoneType' object is not subscriptable''"
  let ?w1 = "started \<lparr>state = CareerState_init, log_records = []\<rparr>"
  have len: "length ?specs \<le> 2" by simp
  have out: "execute (agents_of ?specs [] ! 0) (announce (agents_of ?specs [] ! 0) ?w1)
               = (Inl ?e, announce (agents_of ?specs [] ! 0) ?w1)"
    by (simp add: agents_of_def SummaryAgent_execute_def compose_summary_def getattr_Some
        apos_def)
  then have r: "result_at (agents_of ?specs []) ?w1 0 = Inl ?e"
    by (simp add: result_at_def)
  have w: "emit logger CRITICAL
             (''Unhandled exception in '' @ snd (?specs ! 0) @ '': '' @ exn_str ?e)
             (world_at (agents_of ?specs []) ?w1 (Suc 0))
           = \<lparr>state = CareerState_init,
                log_records =
                  [(''CareerBuilderHelper'', INFO, ''Starting Career Builder Helper Agentic Flow...''),
                   (''CareerBuilderHelper'', INFO, nl @ ''--- Executing Agent: A7_Summary ---''),
                   (''CareerBuilderHelper'', CRITICAL,
                    ''Unhandled exception in A7_Summary: 'NoneType' object is not subscriptable'')]\<rparr>"
    unfolding world_at.simps out snd_conv
    by (simp add: agents_of_def announce_def started_def emit_def logger_def)
  from flow_ends_in_summary_or_notice [OF len, of "[]" "[]"]
  have "\<forall>k e.
          k < length ?specs
          \<and> (\<forall>j<k. result_at (agents_of ?specs []) ?w1 j = Inr ''NEXT_STATE''
                    \<or> result_at (agents_of ?specs []) ?w1 j = Inr ''AWAIT_SELECTION'')
          \<and> result_at (agents_of ?specs []) ?w1 k = Inl e
          \<longrightarrow>
          run_flow 2 (agents_of ?specs []) \<lparr>state = CareerState_init, log_records = []\<rparr>
            = Some (Unhandled e, [0..<Suc k],
                    emit logger CRITICAL
                      (''Unhandled exception in '' @ snd (?specs ! k) @ '': '' @ exn_str e)
                      (world_at (agents_of ?specs []) ?w1 (Suc k)),
                    Inr (abort_notice @ nl))"
    by blast
  note inst = this [THEN spec, of 0, THEN spec, of ?e]
  have pre: "0 < length ?specs
          \<and> (\<forall>j<0. result_at (agents_of ?specs []) ?w1 j = Inr ''NEXT_STATE''
                    \<or> result_at (agents_of ?specs []) ?w1 j = Inr ''AWAIT_SELECTION'')
          \<and> result_at (agents_of ?specs []) ?w1 0 = Inl ?e"
    using r by simp
  from inst pre
  have "run_flow 2 (agents_of ?specs []) \<lparr>state = CareerState_init, log_records = []\<rparr>
            = Some (Unhandled ?e, [0..<Suc 0],
                    emit logger CRITICAL
                      (''Unhandled exception in '' @ snd (?specs ! 0) @ '': '' @ exn_str ?e)
                      (world_at (agents_of ?specs []) ?w1 (Suc 0)),
                    Inr (abort_notice @ nl))"
    by (rule mp)
  then have "run_flow 2 (agents_of ?specs []) \<lparr>state = CareerState_init, log_records = []\<rparr>
            = Some (Unhandled ?e, [0],
               \<lparr>state = CareerState_init,
                log_records =
                  [(''CareerBuilderHelper'', INFO, ''Starting Career Builder Helper Agentic Flow...''),
                   (''CareerBuilderHelper'', INFO, nl @ ''--- Executing Agent: A7_Summary ---''),
                   (''CareerBuilderHelper'', CRITICAL,
                    ''Unhandled exception in A7_Summary: 'NoneType' object is not subscriptable'')]\<rparr>,
               Inr (abort_notice @ nl))"
    unfolding w by simp
  with len r show ?thesis by blast
qed

section \<open>The retry configuration\<close>

text \<open>
  C9. The retry options the program builds are the spec's default configuration: five
  attempts, exponential base 7, initial delay 1, and the status codes 429, 500, 503
  and 504, no other.
\<close>

theorem retry_options_as_spec:
  "attempts http_retry_options = 5 \<and> exp_base http_retry_options = 7
   \<and> initial_delay http_retry_options = 1
   \<and> set (http_status_codes http_retry_options) = {429, 500, 503, 504}"
  by (simp add: http_retry_options_def)
section \<open>The run of the entry point\<close>

text \<open>
  C10. The entry point reads nothing from outside: whatever the log held before and
  whatever fuel is given beyond the seven steps, the run executes the seven agents in
  order, ends by the completion \<open>break\<close>, leaves the same state (each of the eight
  fields holds its mock constant, \<open>final_summary\<close> the summary composed of them) and
  prints the same summary text. So any two runs agree on the final state and on the
  text printed.
\<close>

theorem run_is_deterministic:
  assumes "7 \<le> fuel" and "7 \<le> fuel'"
  shows "\<exists>w w'. run_career_builder_helper fuel lg
                   = Some (Flow_complete, [0..<7], w, Inr (final_text @ nl))
          \<and> run_career_builder_helper fuel' lg'
                   = Some (Flow_complete, [0..<7], w', Inr (final_text @ nl))
          \<and> state w = dict_set ''final_summary'' (PStr final_text) researched_state
          \<and> state w' = state w"
proof -
  from canonical_run [OF assms(1), of lg] obtain w where
    w: "run_career_builder_helper fuel lg
          = Some (Flow_complete, [0..<7], w, Inr (final_text @ nl))"
       "state w = dict_set ''final_summary'' (PStr final_text) researched_state" by blast
  from canonical_run [OF assms(2), of lg'] obtain w' where
    w': "run_career_builder_helper fuel' lg'
           = Some (Flow_complete, [0..<7], w', Inr (final_text @ nl))"
        "state w' = dict_set ''final_summary'' (PStr final_text) researched_state" by blast
  from w w' show ?thesis by auto
qed

text \<open>C10 for two runs that differ in the fuel and in the log they start with.\<close>

theorem run_is_deterministic_witness:
  "(7::nat) \<le> 7 \<and> (7::nat) \<le> 9
   \<and> (\<exists>w w'. run_career_builder_helper 7 []
                   = Some (Flow_complete, [0..<7], w, Inr (final_text @ nl))
          \<and> run_career_builder_helper 9 [(''root'', WARNING, ''earlier record'')]
                   = Some (Flow_complete, [0..<7], w', Inr (final_text @ nl))
          \<and> state w = dict_set ''final_summary'' (PStr final_text) researched_state
          \<and> state w' = state w)"
proof -
  have a: "(7::nat) \<le> 7" and b: "(7::nat) \<le> 9" by simp_all
  from run_is_deterministic [OF a b, of "[]" "[(''root'', WARNING, ''earlier record'')]"]
  show ?thesis by simp
qed

end
